theory Spec2Isabelle
  imports Main "HOL-Library.AList" "HOL-Library.Char_ord" "HOL-Library.List_Lexorder"
    "HOL-Library.Multiset"
begin

section \<open>Strings as byte lists\<close>

text \<open>
  A Go string is a sequence of bytes; \<open>string\<close> (a list of 8-bit characters) models it
  byte for byte. The library functions of package \<open>strings\<close> and \<open>strconv\<close> that
  \<open>service.go\<close> calls are written out here on bytes.
\<close>

definition HasPrefix :: "string \<Rightarrow> string \<Rightarrow> bool" where
  "HasPrefix s p = (take (length p) s = p)"

definition HasSuffix :: "string \<Rightarrow> string \<Rightarrow> bool" where
  "HasSuffix s p = (length p \<le> length s \<and> drop (length s - length p) s = p)"

definition TrimPrefix :: "string \<Rightarrow> string \<Rightarrow> string" where
  "TrimPrefix s p = (if HasPrefix s p then drop (length p) s else s)"

text \<open>
  \<open>unicode.IsSpace\<close>: the six ASCII blanks and, in their UTF-8 encoding, U+0085, U+00A0,
  U+1680, U+2000..U+200A, U+2028, U+2029, U+202F, U+205F and U+3000.
\<close>

definition spaceRunes :: "string list" where
  "spaceRunes =
     [[CHR 0x09], [CHR 0x0A], [CHR 0x0B], [CHR 0x0C], [CHR 0x0D], [CHR 0x20],
      [CHR 0xC2, CHR 0x85], [CHR 0xC2, CHR 0xA0], [CHR 0xE1, CHR 0x9A, CHR 0x80],
      [CHR 0xE2, CHR 0x80, CHR 0x80], [CHR 0xE2, CHR 0x80, CHR 0x81],
      [CHR 0xE2, CHR 0x80, CHR 0x82], [CHR 0xE2, CHR 0x80, CHR 0x83],
      [CHR 0xE2, CHR 0x80, CHR 0x84], [CHR 0xE2, CHR 0x80, CHR 0x85],
      [CHR 0xE2, CHR 0x80, CHR 0x86], [CHR 0xE2, CHR 0x80, CHR 0x87],
      [CHR 0xE2, CHR 0x80, CHR 0x88], [CHR 0xE2, CHR 0x80, CHR 0x89],
      [CHR 0xE2, CHR 0x80, CHR 0x8A], [CHR 0xE2, CHR 0x80, CHR 0xA8],
      [CHR 0xE2, CHR 0x80, CHR 0xA9], [CHR 0xE2, CHR 0x80, CHR 0xAF],
      [CHR 0xE2, CHR 0x81, CHR 0x9F], [CHR 0xE3, CHR 0x80, CHR 0x80]]"

text \<open>One leading rune of the given set removed, when the string starts with one.\<close>

fun stripRune :: "string list \<Rightarrow> string \<Rightarrow> string option" where
  "stripRune [] s = None"
| "stripRune (w # ws) s =
     (if w \<noteq> [] \<and> HasPrefix s w then Some (drop (length w) s) else stripRune ws s)"

lemma HasPrefix_length: "HasPrefix s p \<Longrightarrow> length p \<le> length s"
  unfolding HasPrefix_def by (metis length_take min.cobounded1)

lemma stripRune_shorter: "stripRune ws s = Some r \<Longrightarrow> length r < length s"
proof (induction ws)
  case Nil
  then show ?case by simp
next
  case (Cons w ws)
  show ?case
  proof (cases "w \<noteq> [] \<and> HasPrefix s w")
    case True
    then have "0 < length w" and "length w \<le> length s"
      using HasPrefix_length by auto
    then have "length s - length w < length s" by arith
    moreover have "r = drop (length w) s" using Cons.prems True by simp
    ultimately show ?thesis by simp
  next
    case False
    then show ?thesis using Cons by auto
  qed
qed

function TrimLeftRunes :: "string list \<Rightarrow> string \<Rightarrow> string" where
  "TrimLeftRunes ws s = (case stripRune ws s of None \<Rightarrow> s | Some r \<Rightarrow> TrimLeftRunes ws r)"
  by pat_completeness auto
termination
  by (relation "measure (\<lambda>(ws, s). length s)") (auto dest: stripRune_shorter)

declare TrimLeftRunes.simps [simp del]

text \<open>
  \<open>strings.TrimSpace\<close>: leading white space runes are removed, then trailing ones. A
  trailing rune is found by reading the string backwards, so the right trim is the left
  trim of the reversed string by the reversed encodings.
\<close>

definition TrimSpace :: "string \<Rightarrow> string" where
  "TrimSpace s = rev (TrimLeftRunes (map rev spaceRunes) (rev (TrimLeftRunes spaceRunes s)))"

text \<open>\<open>strings.Split(content, "\n")\<close>: always at least one field.\<close>

fun SplitLines :: "string \<Rightarrow> string list" where
  "SplitLines [] = [[]]"
| "SplitLines (c # cs) =
     (if c = CHR 0x0A then [] # SplitLines cs
      else (case SplitLines cs of [] \<Rightarrow> [[c]] | l # ls \<Rightarrow> (c # l) # ls))"

subsection \<open>Decimal numbers\<close>

definition isDigit :: "char \<Rightarrow> bool" where
  "isDigit c = (c \<in> set ''0123456789'')"

definition digitVal :: "char \<Rightarrow> int" where
  "digitVal c = of_char c - 48"

datatype scan = SyntaxErr | RangeErr | Val int

text \<open>
  \<open>strconv.ParseUint(s, 10, 64)\<close>, reading left to right: the first byte that is not a
  digit is a syntax error, the first step that leaves 64 bits a range error.
\<close>

fun ParseUint :: "int \<Rightarrow> string \<Rightarrow> scan" where
  "ParseUint n [] = Val n"
| "ParseUint n (c # cs) =
     (if \<not> isDigit c then SyntaxErr
      else if n \<ge> 18446744073709551615 div 10 + 1 then RangeErr
      else if n * 10 + digitVal c > 18446744073709551615 then RangeErr
      else ParseUint (n * 10 + digitVal c) cs)"

text \<open>
  \<open>atoi\<close> of \<open>service.go\<close> is \<open>strconv.Atoi\<close> with the error dropped, on a 64-bit
  \<open>int\<close>: a syntax error leaves 0, a range error the nearest bound.
\<close>

definition atoi :: "string \<Rightarrow> int" where
  "atoi s =
     (case s of [] \<Rightarrow> 0
      | c # cs \<Rightarrow>
         (let neg = (c = CHR ''-'');
              ds = (if c = CHR ''+'' \<or> c = CHR ''-'' then cs else s)
          in if ds = [] then 0
             else (case ParseUint 0 ds of
                     SyntaxErr \<Rightarrow> 0
                   | RangeErr \<Rightarrow> (if neg then - 9223372036854775808 else 9223372036854775807)
                   | Val un \<Rightarrow>
                       (if \<not> neg \<and> un \<ge> 9223372036854775808 then 9223372036854775807
                        else if neg \<and> un > 9223372036854775808 then - 9223372036854775808
                        else if neg then - un else un))))"

section \<open>The report parser\<close>

datatype error =
    ConfigNil                \<comment> \<open>\<open>errors.New("config nil")\<close>\<close>
  | NoBundledReleases        \<comment> \<open>\<open>errors.New("no bundled releases")\<close>\<close>
  | TagEmpty                 \<comment> \<open>\<open>errors.New("tag empty")\<close>\<close>
  | DownloadFailed string    \<comment> \<open>\<open>fmt.Errorf("download failed: %s", resp.Status)\<close>\<close>
  | NoTestResults            \<comment> \<open>\<open>errors.New("no test results found")\<close>\<close>
  | NoAnalyticsParsed        \<comment> \<open>\<open>errors.New("no analytics parsed")\<close>\<close>
  | NoCurrentRelease         \<comment> \<open>\<open>errors.New("no current release")\<close>\<close>
  | CannotParseTag           \<comment> \<open>\<open>errors.New("cannot parse latest tag")\<close>\<close>
  | OsError string           \<comment> \<open>an error handed up from the operating system or a library\<close>

record TestResult =
  Name :: string
  HTTP_OK :: int
  HTTP_ERR :: int
  HTTP_UNSUP :: int
  PingOK :: int
  PingFail :: int
  Fail :: int
  Blocked :: int
  Status :: string
  LastTestedAt :: int

definition zeroResult :: TestResult where
  "zeroResult = \<lparr>Name = [], HTTP_OK = 0, HTTP_ERR = 0, HTTP_UNSUP = 0, PingOK = 0,
     PingFail = 0, Fail = 0, Blocked = 0, Status = [], LastTestedAt = 0\<rparr>"

record parsedResults =
  Results :: "(string \<times> TestResult) list"
  Best :: string

subsection \<open>The two line grammars\<close>

text \<open>
  Both regular expressions have the shape \<open>^(.*)\<close> followed by labels, each followed by
  \<open>(\d+)\<close>. \<open>matchCounters\<close> matches the labels and their numbers at the start of a
  string: \<open>\d+\<close> is greedy and the byte after it is never a digit, so each group is the
  longest run of digits. \<open>matchGreedy\<close> is the leading \<open>(.*)\<close>: it takes a byte when
  the match then succeeds further right, so it finds the longest name; \<open>.\<close> does not
  match a line feed. The result is the list of the groups after the name.
\<close>

fun matchCounters :: "string list \<Rightarrow> string \<Rightarrow> string list option" where
  "matchCounters [] s = Some []"
| "matchCounters (lab # labs) s =
     (if HasPrefix s lab then
        (let rest = drop (length lab) s; ds = takeWhile isDigit rest
         in if ds = [] then None
            else (case matchCounters labs (dropWhile isDigit rest) of
                    None \<Rightarrow> None
                  | Some gs \<Rightarrow> Some (ds # gs)))
      else None)"

fun matchGreedy :: "string list \<Rightarrow> string \<Rightarrow> (string \<times> string list) option" where
  "matchGreedy labs [] = map_option (Pair []) (matchCounters labs [])"
| "matchGreedy labs (c # cs) =
     (case (if c = CHR 0x0A then None else matchGreedy labs cs) of
        Some (name, gs) \<Rightarrow> Some (c # name, gs)
      | None \<Rightarrow> map_option (Pair []) (matchCounters labs (c # cs)))"

definition reStd :: "string \<Rightarrow> (string \<times> string list) option" where
  "reStd = matchGreedy
     ['' : HTTP OK: '', '', ERR: '', '', UNSUP: '', '', Ping OK: '', '', Fail: '']"

definition reDpi :: "string \<Rightarrow> (string \<times> string list) option" where
  "reDpi = matchGreedy ['' : OK: '', '', FAIL: '', '', UNSUP: '', '', BLOCKED: '']"

subsection \<open>\<open>parseAnalytics\<close>\<close>

datatype lineAction = Skip | SetBest string | Store TestResult

definition stdResult :: "string \<Rightarrow> string list \<Rightarrow> TestResult" where
  "stdResult m1 gs =
     (let res = zeroResult\<lparr>Name := TrimSpace m1, HTTP_OK := atoi (gs ! 0),
                  HTTP_ERR := atoi (gs ! 1), HTTP_UNSUP := atoi (gs ! 2),
                  PingOK := atoi (gs ! 3), PingFail := atoi (gs ! 4)\<rparr>
      in if HTTP_ERR res = 0 \<and> PingFail res = 0 then res\<lparr>Status := ''ok''\<rparr>
         else res\<lparr>Status := ''fail''\<rparr>)"

definition dpiResult :: "string \<Rightarrow> string list \<Rightarrow> TestResult" where
  "dpiResult m1 gs =
     (let res = zeroResult\<lparr>Name := TrimSpace m1, HTTP_OK := atoi (gs ! 0),
                  Fail := atoi (gs ! 1), HTTP_UNSUP := atoi (gs ! 2),
                  Blocked := atoi (gs ! 3)\<rparr>
      in if Fail res = 0 \<and> Blocked res = 0 then res\<lparr>Status := ''ok''\<rparr>
         else res\<lparr>Status := ''fail''\<rparr>)"

text \<open>The body of the loop over the lines, one line at a time, in the source's order.\<close>

definition parseLine :: "string \<Rightarrow> lineAction" where
  "parseLine raw =
     (let line = TrimSpace raw
      in if line = ''=== ANALYTICS ==='' then Skip
         else if HasPrefix line ''Best strategy:''
           then SetBest (TrimSpace (TrimPrefix line ''Best strategy:''))
         else if line = [] then Skip
         else (case reStd line of
                 Some (m1, gs) \<Rightarrow> Store (stdResult m1 gs)
               | None \<Rightarrow>
                  (case reDpi line of
                     Some (m1, gs) \<Rightarrow> Store (dpiResult m1 gs)
                   | None \<Rightarrow> Skip)))"

fun parseLines :: "string list \<Rightarrow> (string \<times> TestResult) list \<Rightarrow> string
    \<Rightarrow> (string \<times> TestResult) list \<times> string" where
  "parseLines [] results best = (results, best)"
| "parseLines (raw # lines) results best =
     (case parseLine raw of
        Skip \<Rightarrow> parseLines lines results best
      | SetBest b \<Rightarrow> parseLines lines results b
      | Store res \<Rightarrow> parseLines lines (AList.update (Name res) res results) best)"

definition parseAnalytics :: "string \<Rightarrow> error + parsedResults" where
  "parseAnalytics content =
     (case parseLines (SplitLines content) [] [] of
        (results, best) \<Rightarrow>
          if results = [] then Inl NoAnalyticsParsed
          else Inr \<lparr>Results = results, Best = best\<rparr>)"


section \<open>Data model\<close>

text \<open>
  The structs of \<open>service.go\<close>. A \<open>time.Time\<close> is an integer, the zero time 0. A Go map
  is an association list with distinct keys. Field names that two structs share are
  prefixed for all but one of them (\<open>sName\<close> of \<open>Strategy\<close>, \<open>stRunning\<close> of \<open>State\<close>).
  \<open>Meta\<close> is kept as read from disk: no code reads or writes it.
\<close>

record RunningInfo =
  File :: string
  PID :: int
  StartedAt :: int

record Config =
  Version :: string
  LastStrategy :: string
  LastTestAt :: int
  TestResults :: "(string \<times> TestResult) list"
  BestStrategy :: string
  Meta :: "(string \<times> string) list"
  Running :: "RunningInfo option"
  TestInProgress :: bool

record Strategy =
  sName :: string
  sFile :: string
  sResult :: TestResult
  sBest :: bool

text \<open>
  \<open>State\<close>, the DTO. \<open>CurrentPath\<close> is \<open>None\<close> for the empty path: \<open>filepath.Join\<close> of
  the non-empty releases directory and a version is never empty, so an empty
  \<open>currentReleasePath\<close> always means that no release is active.
\<close>

record StateDTO =
  stConfig :: Config
  Strategies :: "Strategy list"
  LatestTag :: string
  HasUpdate :: bool
  CurrentPath :: "string option"
  LastTestLog :: string
  stRunning :: "RunningInfo option"

definition defaultConfig :: Config where
  "defaultConfig = \<lparr>Version = [], LastStrategy = [], LastTestAt = 0, TestResults = [],
     BestStrategy = [], Meta = [], Running = None, TestInProgress = False\<rparr>"

section \<open>The world around the service\<close>

text \<open>
  What the operating system and the network answer is not decided by the program. The
  answers are fields of an environment \<open>Env\<close>, each a function of the moment of the call
  (\<open>tick\<close>, which every call outside the process advances), so that two calls of one
  operation may be answered differently. What the program itself changes is state:
  the loaded config \<open>s.config\<close>, the config file, and which paths are files or
  directories. \<open>trace\<close> lists the requests, extractions, writes of the config file and
  commands, in order.
\<close>

datatype node = RegularFile | Directory

record DirEntry =
  eName :: string
  eIsDir :: bool
  eInfo :: "error + int"       \<comment> \<open>\<open>Info()\<close>: an error, or the modification time\<close>
  eData :: "error + string"    \<comment> \<open>what \<open>os.ReadFile\<close> of the entry returns\<close>

record ZipEntry =
  zName :: string
  zIsDir :: bool
  zOpenErr :: "error option"   \<comment> \<open>\<open>f.Open()\<close>\<close>
  zReadErr :: "error option"   \<comment> \<open>reading the entry's data in \<open>io.Copy\<close>\<close>

record Response =
  StatusCode :: int
  StatusText :: string
  Body :: "error + (error + ZipEntry list)"
    \<comment> \<open>\<open>io.ReadAll\<close>, then the bytes as \<open>zip.NewReader\<close> reads them\<close>

datatype writeOutcome = WriteOk | OpenFailed error | WriteFailed error

datatype event =
    GetLatest
  | GetArchive string
  | Extract string
  | SaveConfig Config
  | Exec string "string list"
  | StartProcess string bool

record Env =
  baseDir :: string
  releasesDir :: string
  logsDir :: string
  RUN_PROCESS_HIDDEN :: bool
  pathJoin :: "string \<Rightarrow> string \<Rightarrow> string"
  pathIsAbs :: "string \<Rightarrow> bool"
  pathBase :: "string \<Rightarrow> string"
  pathDir :: "string \<Rightarrow> string"
  pathAncestors :: "string \<Rightarrow> string list"
  codecString :: "string \<Rightarrow> string"
  codecResults :: "(string \<times> TestResult) list \<Rightarrow> (string \<times> TestResult) list"
  now :: "nat \<Rightarrow> int"
  ioRes :: "nat \<Rightarrow> error option"
  writeRes :: "nat \<Rightarrow> writeOutcome"
  bundledRes :: "nat \<Rightarrow> error + DirEntry list"
  latestRes :: "nat \<Rightarrow> error + string"
  urlErr :: "string \<Rightarrow> error option"
  downloadRes :: "nat \<Rightarrow> string \<Rightarrow> error + Response"
  readDirRes :: "nat \<Rightarrow> string \<Rightarrow> error + DirEntry list"
  tasklistRes :: "nat \<Rightarrow> int \<Rightarrow> error + string"
  launchRes :: "nat \<Rightarrow> string \<Rightarrow> error + string"

record Sys =
  config :: "Config option"
  disk :: "Config option"
  fs :: "string \<Rightarrow> node option"
  tick :: nat
  trace :: "event list"

definition step :: "Sys \<Rightarrow> Sys" where
  "step s = s\<lparr>tick := Suc (tick s)\<rparr>"

definition emit :: "event \<Rightarrow> Sys \<Rightarrow> Sys" where
  "emit ev s = s\<lparr>trace := trace s @ [ev]\<rparr>"

subsection \<open>Files and directories\<close>

text \<open>
  \<open>os.MkdirAll\<close>, as the library writes it: nothing to do on a directory, an error on
  a regular file; otherwise the parent is made in the same way, and then the system
  decides on the directory itself. \<open>mkdirUp\<close> runs over the path followed by its
  ancestors, the nearest first; \<open>pathAncestors\<close> lists the ancestors of a path.
\<close>

fun mkdirUp :: "Env \<Rightarrow> string list \<Rightarrow> Sys \<Rightarrow> error option \<times> Sys" where
  "mkdirUp e [] s = (None, s)"
| "mkdirUp e (p # ups) s =
     (case fs s p of
        Some Directory \<Rightarrow> (None, s)
      | Some RegularFile \<Rightarrow> (Some (OsError ''not a directory''), s)
      | None \<Rightarrow>
         (case mkdirUp e ups s of
            (Some err, s1) \<Rightarrow> (Some err, s1)
          | (None, s1) \<Rightarrow>
             (case ioRes e (tick s1) of
                Some err \<Rightarrow> (Some err, step s1)
              | None \<Rightarrow> (None, step (s1\<lparr>fs := (fs s1)(p \<mapsto> Directory)\<rparr>)))))"

definition MkdirAll :: "Env \<Rightarrow> string \<Rightarrow> Sys \<Rightarrow> error option \<times> Sys" where
  "MkdirAll e p s = mkdirUp e (p # pathAncestors e p) s"

fun mkdirEach :: "Env \<Rightarrow> string list \<Rightarrow> Sys \<Rightarrow> error option \<times> Sys" where
  "mkdirEach e [] s = (None, s)"
| "mkdirEach e (d # ds) s =
     (case MkdirAll e d s of
        (Some err, s1) \<Rightarrow> (Some err, s1)
      | (None, s1) \<Rightarrow> mkdirEach e ds s1)"

definition ensureDirs :: "Env \<Rightarrow> Sys \<Rightarrow> error option \<times> Sys" where
  "ensureDirs e s = mkdirEach e [baseDir e, releasesDir e, logsDir e] s"

text \<open>
  \<open>os.OpenFile(fp, O_CREATE|O_WRONLY|O_TRUNC, mode)\<close>: an error on a directory,
  otherwise the system decides.
\<close>

definition createFile :: "Env \<Rightarrow> string \<Rightarrow> Sys \<Rightarrow> error option \<times> Sys" where
  "createFile e fp s =
     (case fs s fp of
        Some Directory \<Rightarrow> (Some (OsError ''is a directory''), s)
      | _ \<Rightarrow>
         (case ioRes e (tick s) of
            Some err \<Rightarrow> (Some err, step s)
          | None \<Rightarrow> (None, step (s\<lparr>fs := (fs s)(fp \<mapsto> RegularFile)\<rparr>))))"

subsection \<open>The config store\<close>

text \<open>
  \<open>disk\<close> is the config file as \<open>json.Unmarshal\<close> decodes it. The file that
  \<open>json.MarshalIndent\<close> writes for a config does not decode to that config in general:
  the encoder replaces the bytes of a string that are not UTF-8, in values and in map
  keys. \<open>jsonCodec\<close> is the config that the written file decodes to: \<open>codecString\<close> is
  what the encoder and decoder make of a string, \<open>codecResults\<close> of the result map;
  numbers, times, the flag and \<open>Meta\<close> (only ever decoded from a file) come back as they
  were, and an absent running entry stays absent.
\<close>

definition jsonCodec :: "Env \<Rightarrow> Config \<Rightarrow> Config" where
  "jsonCodec e cfg =
     cfg\<lparr>Version := codecString e (Version cfg),
         LastStrategy := codecString e (LastStrategy cfg),
         TestResults := codecResults e (TestResults cfg),
         BestStrategy := codecString e (BestStrategy cfg),
         Running := map_option (\<lambda>ri. ri\<lparr>File := codecString e (File ri)\<rparr>) (Running cfg)\<rparr>"

text \<open>
  \<open>saveConfig\<close> writes the whole document. \<open>os.WriteFile\<close> truncates the file before it
  writes: when opening fails the file is as before, when writing fails what is left is
  not a JSON document. An error of \<open>json.MarshalIndent\<close> is returned before the file is
  touched, as an error of opening is: both are the outcome \<open>OpenFailed\<close>.
\<close>

definition saveConfig :: "Env \<Rightarrow> Sys \<Rightarrow> error option \<times> Sys" where
  "saveConfig e s =
     (case config s of
        None \<Rightarrow> (Some ConfigNil, s)
      | Some cfg \<Rightarrow>
         (let s1 = step (emit (SaveConfig cfg) s)
          in case writeRes e (tick s) of
               WriteOk \<Rightarrow> (None, s1\<lparr>disk := Some (jsonCodec e cfg)\<rparr>)
             | OpenFailed err \<Rightarrow> (Some err, s1)
             | WriteFailed err \<Rightarrow> (Some err, s1\<lparr>disk := None\<rparr>)))"

text \<open>
  \<open>copyDir\<close> walks the bundled release: the walk reaches the root, makes the target
  directory, and copies what is below.
\<close>

definition copyDir :: "Env \<Rightarrow> string \<Rightarrow> Sys \<Rightarrow> error option \<times> Sys" where
  "copyDir e dst s =
     (case ioRes e (tick s) of
        Some err \<Rightarrow> (Some err, step s)
      | None \<Rightarrow>
         (case MkdirAll e dst (step s) of
            (Some err, s1) \<Rightarrow> (Some err, s1)
          | (None, s1) \<Rightarrow> (ioRes e (tick s1), step s1)))"

text \<open>
  \<open>seedLocalRelease\<close>: \<open>bundledRes\<close> is the listing of \<open>./release\<close> under the working
  directory, or the error of \<open>os.Getwd\<close> or \<open>os.ReadDir\<close>.
\<close>

definition seedLocalRelease :: "Env \<Rightarrow> Sys \<Rightarrow> (error + string) \<times> Sys" where
  "seedLocalRelease e s =
     (case bundledRes e (tick s) of
        Inl err \<Rightarrow> (Inl err, step s)
      | Inr entries \<Rightarrow>
         (let s1 = step s; versions = map eName (filter eIsDir entries)
          in if versions = [] then (Inl NoBundledReleases, s1)
             else (let latest = last (sort versions);
                       dst = pathJoin e (releasesDir e) latest
                   in if fs s1 dst \<noteq> None then (Inr latest, s1)
                      else (case copyDir e dst s1 of
                              (Some err, s2) \<Rightarrow> (Inl err, s2)
                            | (None, s2) \<Rightarrow> (Inr latest, s2)))))"

text \<open>
  \<open>loadConfig\<close>: \<open>disk\<close> is the config file as \<open>json.Unmarshal\<close> decodes it onto the
  default document, \<open>None\<close> when there is no file or it is not JSON.
\<close>

definition loadConfig :: "Env \<Rightarrow> Sys \<Rightarrow> (error + Config) \<times> Sys" where
  "loadConfig e s =
     (case config s of
        Some cfg \<Rightarrow> (Inr cfg, s)
      | None \<Rightarrow>
         (case ensureDirs e s of
            (Some err, s1) \<Rightarrow> (Inl err, s1)
          | (None, s1) \<Rightarrow>
             (let cfg = (case disk s1 of None \<Rightarrow> defaultConfig | Some d \<Rightarrow> d)
              in if Version cfg = [] then
                   (case seedLocalRelease e s1 of
                      (Inr v, s2) \<Rightarrow>
                        (let cfg' = (if v \<noteq> [] then cfg\<lparr>Version := v\<rparr> else cfg)
                         in (Inr cfg', s2\<lparr>config := Some cfg'\<rparr>))
                    | (Inl err, s2) \<Rightarrow> (Inr cfg, s2\<lparr>config := Some cfg\<rparr>))
                 else (Inr cfg, s1\<lparr>config := Some cfg\<rparr>))))"

text \<open>
  A write through the pointer \<open>cfg\<close> changes \<open>s.config\<close>: \<open>modifyCfg\<close>. \<open>saveQuiet\<close> is
  \<open>_ = s.saveConfig()\<close>.
\<close>

definition modifyCfg :: "(Config \<Rightarrow> Config) \<Rightarrow> Sys \<Rightarrow> Sys" where
  "modifyCfg f s = s\<lparr>config := map_option f (config s)\<rparr>"

definition saveQuiet :: "Env \<Rightarrow> Sys \<Rightarrow> Sys" where
  "saveQuiet e s = snd (saveConfig e s)"

definition currentReleasePath :: "Env \<Rightarrow> Sys \<Rightarrow> string option \<times> Sys" where
  "currentReleasePath e s =
     (case loadConfig e s of
        (Inl err, s1) \<Rightarrow> (None, s1)
      | (Inr cfg, s1) \<Rightarrow>
          if Version cfg = [] then (None, s1)
          else (Some (pathJoin e (releasesDir e) (Version cfg)), s1))"

section \<open>Release manager\<close>

definition repoLatestURL :: string where
  "repoLatestURL = ''https://github.com/Flowseal/zapret-discord-youtube/releases/latest''"

definition downloadURL :: "string \<Rightarrow> string" where
  "downloadURL tag =
     ''https://github.com/Flowseal/zapret-discord-youtube/releases/download/'' @ tag @
     ''/zapret-discord-youtube-'' @ tag @ ''.zip''"

fun SplitByte :: "char \<Rightarrow> string \<Rightarrow> string list" where
  "SplitByte sep [] = [[]]"
| "SplitByte sep (c # cs) =
     (if c = sep then [] # SplitByte sep cs
      else (case SplitByte sep cs of [] \<Rightarrow> [[c]] | l # ls \<Rightarrow> (c # l) # ls))"

definition TrimRightByte :: "char \<Rightarrow> string \<Rightarrow> string" where
  "TrimRightByte c s = rev (dropWhile (\<lambda>x. x = c) (rev s))"

text \<open>
  \<open>latestTag\<close>: \<open>latestRes\<close> is the error of \<open>client.Do\<close> or the \<open>Location\<close> header of
  the response, empty when there is none; the request's own URL is \<open>repoLatestURL\<close>.
\<close>

definition latestTag :: "Env \<Rightarrow> Sys \<Rightarrow> (error + string) \<times> Sys" where
  "latestTag e s =
     (let s1 = step (emit GetLatest s)
      in case latestRes e (tick s) of
           Inl err \<Rightarrow> (Inl err, s1)
         | Inr location \<Rightarrow>
            (let loc = (if location = [] then repoLatestURL else location);
                 parts = SplitByte (CHR ''/'') (TrimRightByte (CHR ''/'') loc)
             in if parts = [] then (Inl CannotParseTag, s1)
                else (Inr (last parts), s1)))"

text \<open>
  \<open>unzipBuffer\<close>, one archive entry after the other. Each entry is written at
  \<open>filepath.Join(dest, f.Name)\<close>, whatever the name is: nothing keeps the path below
  \<open>dest\<close>, and \<open>dest\<close> itself is made only as an ancestor of a directory that an entry
  needs.
\<close>

definition copyEntry :: "Env \<Rightarrow> ZipEntry \<Rightarrow> Sys \<Rightarrow> error option \<times> Sys" where
  "copyEntry e f s =
     (case zReadErr f of
        Some err \<Rightarrow> (Some err, s)
      | None \<Rightarrow> (ioRes e (tick s), step s))"

fun unzipEntries :: "Env \<Rightarrow> string \<Rightarrow> ZipEntry list \<Rightarrow> Sys \<Rightarrow> error option \<times> Sys" where
  "unzipEntries e dest [] s = (None, s)"
| "unzipEntries e dest (f # rest) s =
     (let fp = pathJoin e dest (zName f); s0 = emit (Extract fp) s
      in if zIsDir f then
           (case MkdirAll e fp s0 of
              (Some err, s1) \<Rightarrow> (Some err, s1)
            | (None, s1) \<Rightarrow> unzipEntries e dest rest s1)
         else
           (case MkdirAll e (pathDir e fp) s0 of
              (Some err, s1) \<Rightarrow> (Some err, s1)
            | (None, s1) \<Rightarrow>
               (case zOpenErr f of
                  Some err \<Rightarrow> (Some err, s1)
                | None \<Rightarrow>
                   (case createFile e fp s1 of
                      (Some err, s2) \<Rightarrow> (Some err, s2)
                    | (None, s2) \<Rightarrow>
                       (case copyEntry e f s2 of
                          (Some err, s3) \<Rightarrow> (Some err, s3)
                        | (None, s3) \<Rightarrow> unzipEntries e dest rest s3)))))"

definition unzipBuffer :: "Env \<Rightarrow> (error + ZipEntry list) \<Rightarrow> string \<Rightarrow> Sys
    \<Rightarrow> error option \<times> Sys" where
  "unzipBuffer e data dest s =
     (case data of
        Inl err \<Rightarrow> (Some err, s)
      | Inr files \<Rightarrow> unzipEntries e dest files s)"

definition downloadAndUnpack :: "Env \<Rightarrow> string \<Rightarrow> Sys \<Rightarrow> error option \<times> Sys" where
  "downloadAndUnpack e tag s =
     (if tag = [] then (Some TagEmpty, s)
      else (case ensureDirs e s of
              (Some err, s1) \<Rightarrow> (Some err, s1)
            | (None, s1) \<Rightarrow>
               (let targetDir = pathJoin e (releasesDir e) tag
                in if fs s1 targetDir = Some Directory then (None, s1)
                   else (case urlErr e (downloadURL tag) of
                           Some err \<Rightarrow> (Some err, s1)
                         | None \<Rightarrow>
                            (let s2 = step (emit (GetArchive (downloadURL tag)) s1)
                             in case downloadRes e (tick s1) (downloadURL tag) of
                                  Inl err \<Rightarrow> (Some err, s2)
                                | Inr resp \<Rightarrow>
                                   if StatusCode resp \<ge> 400
                                   then (Some (DownloadFailed (StatusText resp)), s2)
                                   else (case Body resp of
                                           Inl err \<Rightarrow> (Some err, s2)
                                         | Inr buf \<Rightarrow> unzipBuffer e buf targetDir s2))))))"

section \<open>Strategy catalog\<close>

text \<open>
  \<open>strings.ToLower\<close>: exact on ASCII and on the two letters outside ASCII whose lower
  case is an ASCII letter (U+0130 gives \<open>i\<close>, U+212A gives \<open>k\<close>). Every other byte is
  kept; Go maps it to bytes outside ASCII as well, so no comparison with an ASCII
  prefix or suffix is changed.
\<close>

definition lowerByte :: "char \<Rightarrow> char" where
  "lowerByte c =
     (if (65::nat) \<le> of_char c \<and> of_char c \<le> (90::nat) then char_of (of_char c + (32::nat))
      else c)"

fun ToLower :: "string \<Rightarrow> string" where
  "ToLower [] = []"
| "ToLower (c # cs) =
     (if c = CHR 0xC4 \<and> HasPrefix cs [CHR 0xB0] then CHR ''i'' # ToLower (drop 1 cs)
      else if c = CHR 0xE2 \<and> HasPrefix cs [CHR 0x84, CHR 0xAA]
        then CHR ''k'' # ToLower (drop 2 cs)
      else lowerByte c # ToLower cs)"

definition newStrategy :: "Env \<Rightarrow> string \<Rightarrow> string \<Rightarrow> Strategy" where
  "newStrategy e current name =
     \<lparr>sName = name, sFile = pathJoin e current name, sResult = zeroResult, sBest = False\<rparr>"

text \<open>The loop of \<open>listStrategies\<close> over the directory entries.\<close>

fun selectStrategies :: "Env \<Rightarrow> string \<Rightarrow> DirEntry list \<Rightarrow> Strategy list" where
  "selectStrategies e current [] = []"
| "selectStrategies e current (x # xs) =
     (let name = eName x
      in if eIsDir x \<or> HasPrefix (ToLower name) ''service''
           then selectStrategies e current xs
         else if HasSuffix (ToLower name) ''.bat'' \<and> HasPrefix (ToLower name) ''general''
           then newStrategy e current name # selectStrategies e current xs
         else selectStrategies e current xs)"

text \<open>
  \<open>sort.Slice\<close> by \<open>Name\<close>, bytewise. Two selected strategies of one name are equal, so
  every sorting algorithm returns the same list; \<open>sort_key\<close> stands for the library's.
\<close>

definition listStrategies :: "Env \<Rightarrow> Sys \<Rightarrow> (error + Strategy list) \<times> Sys" where
  "listStrategies e s =
     (case currentReleasePath e s of
        (None, s1) \<Rightarrow> (Inr [], s1)
      | (Some current, s1) \<Rightarrow>
         (case readDirRes e (tick s1) current of
            Inl err \<Rightarrow> (Inl err, step s1)
          | Inr entries \<Rightarrow>
              (Inr (sort_key sName (selectStrategies e current entries)), step s1)))"

section \<open>The latest report on disk\<close>

text \<open>The loop of \<open>parseLatestResult\<close>: the entry modified last, the first one among equals.\<close>

fun pickLatest :: "DirEntry list \<Rightarrow> DirEntry option \<Rightarrow> int \<Rightarrow> DirEntry option" where
  "pickLatest [] latest latestTime = latest"
| "pickLatest (x # xs) latest latestTime =
     (if eIsDir x then pickLatest xs latest latestTime
      else (case eInfo x of
              Inl err \<Rightarrow> pickLatest xs latest latestTime
            | Inr modTime \<Rightarrow>
                if modTime > latestTime then pickLatest xs (Some x) modTime
                else pickLatest xs latest latestTime))"

definition parseLatestResult :: "Env \<Rightarrow> string \<Rightarrow> Sys \<Rightarrow> (error + parsedResults) \<times> Sys" where
  "parseLatestResult e current s =
     (let dir = pathJoin e (pathJoin e current ''utils'') ''test results''
      in case readDirRes e (tick s) dir of
           Inl err \<Rightarrow> (Inl err, step s)
         | Inr entries \<Rightarrow>
            (case pickLatest entries None 0 of
               None \<Rightarrow> (Inl NoTestResults, step s)
             | Some latest \<Rightarrow>
                (case eData latest of
                   Inl err \<Rightarrow> (Inl err, step (step s))
                 | Inr data \<Rightarrow> (parseAnalytics data, step (step s)))))"

section \<open>Processes\<close>

function showNat :: "int \<Rightarrow> string" where
  "showNat n = (if n < 10 then [char_of (48 + n)] else showNat (n div 10) @ [char_of (48 + n mod 10)])"
  by pat_completeness auto
termination
  by (relation "measure nat") auto

declare showNat.simps [simp del]

text \<open>\<open>fmt.Sprintf("%d", n)\<close>.\<close>

definition showInt :: "int \<Rightarrow> string" where
  "showInt n = (if n < 0 then CHR ''-'' # showNat (- n) else showNat n)"

fun Contains :: "string \<Rightarrow> string \<Rightarrow> bool" where
  "Contains [] sub = (sub = [])"
| "Contains (c # cs) sub = (HasPrefix (c # cs) sub \<or> Contains cs sub)"

text \<open>A command whose result the caller drops: it is run, and time passes.\<close>

definition runCmd :: "string \<Rightarrow> string list \<Rightarrow> Sys \<Rightarrow> Sys" where
  "runCmd name args s = step (emit (Exec name args) s)"

definition isPIDRunning :: "Env \<Rightarrow> int \<Rightarrow> Sys \<Rightarrow> bool \<times> Sys" where
  "isPIDRunning e pid s =
     (if pid \<le> 0 then (False, s)
      else (let s1 = runCmd ''tasklist'' [''/FI'', ''pid eq '' @ showInt pid] s
            in case tasklistRes e (tick s) pid of
                 Inl err \<Rightarrow> (False, s1)
               | Inr out \<Rightarrow> (Contains out (showInt pid), s1)))"

definition killProcessTree :: "int \<Rightarrow> Sys \<Rightarrow> Sys" where
  "killProcessTree pid s =
     (if pid \<le> 0 then s
      else runCmd ''taskkill'' [''/PID'', showInt pid, ''/T'', ''/F''] s)"

definition psScript :: string where
  "psScript = concat (map (\<lambda>l. l @ [CHR 0x0A])
     [[],
      ''$procs = Get-Process -Name winws -ErrorAction SilentlyContinue'',
      ''if ($procs) {'',
      ''    $procs | Stop-Process -Force -ErrorAction SilentlyContinue'',
      ''    Start-Sleep -Milliseconds 200'',
      ''    # Double-check and kill any remaining'',
      ''    $remaining = Get-Process -Name winws -ErrorAction SilentlyContinue'',
      ''    if ($remaining) {'',
      ''        $remaining | Stop-Process -Force -ErrorAction Stop'',
      ''    }'',
      ''}''])"

section \<open>The service's operations\<close>

text \<open>
  The two blocks of \<open>State\<close> under \<open>current != ""\<close> (\<open>rehydrate\<close> and
  \<open>validateRunning\<close>), and the \<open>if\<close> around them (\<open>refresh\<close>).
\<close>

definition rehydrate :: "Env \<Rightarrow> string \<Rightarrow> Sys \<Rightarrow> Sys" where
  "rehydrate e current s =
     (case parseLatestResult e current s of
        (Inr latest, s1) \<Rightarrow>
          if Results latest \<noteq> [] then
            saveQuiet e (modifyCfg (\<lambda>cfg. cfg\<lparr>TestResults := Results latest,
                                             BestStrategy := Best latest\<rparr>) s1)
          else s1
      | (Inl err, s1) \<Rightarrow> s1)"

definition validateRunning :: "Env \<Rightarrow> Sys \<Rightarrow> Sys" where
  "validateRunning e s =
     (case config s of
        None \<Rightarrow> s
      | Some cfg \<Rightarrow>
         (case Running cfg of
            None \<Rightarrow> s
          | Some ri \<Rightarrow>
             (case isPIDRunning e (PID ri) s of
                (True, s1) \<Rightarrow> s1
              | (False, s1) \<Rightarrow> saveQuiet e (modifyCfg (\<lambda>cfg. cfg\<lparr>Running := None\<rparr>) s1))))"

definition refresh :: "Env \<Rightarrow> Sys \<Rightarrow> Sys" where
  "refresh e s =
     (case currentReleasePath e s of
        (None, s2) \<Rightarrow> s2
      | (Some current, s2) \<Rightarrow> validateRunning e (rehydrate e current s2))"

definition decorate :: "Config \<Rightarrow> Strategy \<Rightarrow> Strategy" where
  "decorate cfg st =
     (let st1 = (case map_of (TestResults cfg) (sName st) of
                   Some res \<Rightarrow> st\<lparr>sResult := res\<rparr>
                 | None \<Rightarrow> st)
      in if BestStrategy cfg \<noteq> [] \<and> BestStrategy cfg = sName st1
         then st1\<lparr>sBest := True\<rparr> else st1)"

definition State :: "Env \<Rightarrow> Sys \<Rightarrow> (error + StateDTO) \<times> Sys" where
  "State e s =
     (case loadConfig e s of
        (Inl err, s1) \<Rightarrow> (Inl err, s1)
      | (Inr cfg0, s1) \<Rightarrow>
         (let s3 = refresh e s1;
              cfg = (case config s3 of Some c \<Rightarrow> c | None \<Rightarrow> cfg0);
              (latest, s4) = (case latestTag e s3 of
                                (Inr tag, s') \<Rightarrow> (tag, s')
                              | (Inl err, s') \<Rightarrow> ([], s'));
              hasUpdate = (latest \<noteq> [] \<and> latest \<noteq> Version cfg);
              (strategies, s5) = (case listStrategies e s4 of
                                    (Inr l, s') \<Rightarrow> (l, s')
                                  | (Inl err, s') \<Rightarrow> ([], s'));
              (current', s6) = currentReleasePath e s5
          in (Inr \<lparr>stConfig = cfg, Strategies = map (decorate cfg) strategies,
                   LatestTag = latest, HasUpdate = hasUpdate, CurrentPath = current',
                   LastTestLog = [], stRunning = Running cfg\<rparr>, s6)))"

definition CheckAndUpdate :: "Env \<Rightarrow> Sys \<Rightarrow> (error + StateDTO) \<times> Sys" where
  "CheckAndUpdate e s =
     (case loadConfig e s of
        (Inl err, s1) \<Rightarrow> (Inl err, s1)
      | (Inr cfg, s1) \<Rightarrow>
         (case latestTag e s1 of
            (Inl err, s2) \<Rightarrow> (Inl err, s2)
          | (Inr latest, s2) \<Rightarrow>
              if Version cfg = latest \<and> latest \<noteq> [] then State e s2
              else (case downloadAndUnpack e latest s2 of
                      (Some err, s3) \<Rightarrow> (Inl err, s3)
                    | (None, s3) \<Rightarrow>
                       (case saveConfig e (modifyCfg (\<lambda>cfg. cfg\<lparr>Version := latest\<rparr>) s3) of
                          (Some err, s4) \<Rightarrow> (Inl err, s4)
                        | (None, s4) \<Rightarrow> State e s4))))"

definition StopRunning :: "Env \<Rightarrow> Sys \<Rightarrow> error option \<times> Sys" where
  "StopRunning e s =
     (case loadConfig e s of
        (Inl err, s1) \<Rightarrow> (Some err, s1)
      | (Inr cfg, s1) \<Rightarrow>
         (let s2 = runCmd ''taskkill'' [''/IM'', ''winws.exe'', ''/T'', ''/F''] s1;
              s3 = runCmd ''powershell''
                     [''-NoProfile'', ''-ExecutionPolicy'', ''Bypass'', ''-Command'', psScript] s2;
              s4 = runCmd ''wmic''
                     [''process'', ''where'',
                      ''name='' @ [CHR 0x27] @ ''winws.exe'' @ [CHR 0x27], ''delete''] s3
          in case Running cfg of
               None \<Rightarrow> (None, s4)
             | Some ri \<Rightarrow>
                (let s7 = (case isPIDRunning e (PID ri) s4 of
                             (True, s5) \<Rightarrow>
                               runCmd ''taskkill'' [''/PID'', showInt (PID ri), ''/T'', ''/F'']
                                 (runCmd ''powershell''
                                    [''-NoProfile'', ''-Command'',
                                     ''Stop-Process -Id '' @ showInt (PID ri) @
                                     '' -Force -ErrorAction SilentlyContinue''] s5)
                           | (False, s5) \<Rightarrow> s5)
                 in (None, saveQuiet e (modifyCfg (\<lambda>cfg. cfg\<lparr>Running := None\<rparr>) s7)))))"


text \<open>\<open>App.StopStrategy\<close> of \<open>app.go\<close>.\<close>

definition StopStrategy :: "Env \<Rightarrow> Sys \<Rightarrow> (error + StateDTO) \<times> Sys" where
  "StopStrategy e s =
     (case StopRunning e s of
        (Some err, s1) \<Rightarrow> (Inl err, s1)
      | (None, s1) \<Rightarrow> State e s1)"

section \<open>Observations\<close>

text \<open>
  What the properties below observe of a run: the archive work recorded in the trace
  (download requests and extractions), the writes of the config file, which directories
  are kept, whether the process table holds a PID at a given moment, by the test of
  \<open>isPIDRunning\<close>, and whether the config file holds what the encoder writes for the
  loaded config.
\<close>

definition archiveWork :: "event list \<Rightarrow> event list" where
  "archiveWork evs = filter (\<lambda>ev. case ev of GetArchive u \<Rightarrow> True | Extract p \<Rightarrow> True | _ \<Rightarrow> False) evs"

definition saves :: "event list \<Rightarrow> event list" where
  "saves evs = filter (\<lambda>ev. case ev of SaveConfig c \<Rightarrow> True | _ \<Rightarrow> False) evs"

definition keepsDirs :: "Sys \<Rightarrow> Sys \<Rightarrow> bool" where
  "keepsDirs s s' \<longleftrightarrow> (\<forall>p. fs s p = Some Directory \<longrightarrow> fs s' p = Some Directory)"

definition fsOnly :: "Sys \<Rightarrow> Sys \<Rightarrow> bool" where
  "fsOnly s s' \<longleftrightarrow> config s' = config s \<and> disk s' = disk s \<and> trace s' = trace s \<and> keepsDirs s s'"

definition storeOnly :: "Sys \<Rightarrow> Sys \<Rightarrow> bool" where
  "storeOnly s s' \<longleftrightarrow> config s' = config s \<and> disk s' = disk s \<and>
     saves (trace s') = saves (trace s) \<and> keepsDirs s s'"

definition pidAlive :: "Env \<Rightarrow> nat \<Rightarrow> int \<Rightarrow> bool" where
  "pidAlive e t pid \<longleftrightarrow> pid > 0 \<and>
     (case tasklistRes e t pid of Inl err \<Rightarrow> False | Inr out \<Rightarrow> Contains out (showInt pid))"

definition inSync :: "Env \<Rightarrow> Sys \<Rightarrow> bool" where
  "inSync e s \<longleftrightarrow> disk s = map_option (jsonCodec e) (config s)"

section \<open>An example installation\<close>

text \<open>
  Release 1.9.0 is unpacked and active, a strategy is recorded as running under PID 4242
  that the process table no longer holds, and the test harness has left a report.
\<close>

definition sampleReport :: string where
  "sampleReport = ''=== ANALYTICS ==='' @ [CHR 0x0D, CHR 0x0A] @
     ''general1 : HTTP OK: 5, ERR: 0, UNSUP: 0, Ping OK: 5, Fail: 0'' @ [CHR 0x0D, CHR 0x0A] @
     ''general2 : HTTP OK: 3, ERR: 2, UNSUP: 0, Ping OK: 5, Fail: 0'' @ [CHR 0x0D, CHR 0x0A] @
     ''Best strategy: general1'' @ [CHR 0x0D, CHR 0x0A]"

definition sampleEntries :: "DirEntry list" where
  "sampleEntries =
     [\<lparr>eName = ''general1.bat'', eIsDir = False, eInfo = Inr 100, eData = Inr []\<rparr>,
      \<lparr>eName = ''general2.BAT'', eIsDir = False, eInfo = Inr 100, eData = Inr []\<rparr>,
      \<lparr>eName = ''service.bat'', eIsDir = False, eInfo = Inr 100, eData = Inr []\<rparr>,
      \<lparr>eName = ''readme.txt'', eIsDir = False, eInfo = Inr 100, eData = Inr []\<rparr>]"

fun joinSlash :: "string list \<Rightarrow> string" where
  "joinSlash [] = []"
| "joinSlash [k] = k"
| "joinSlash (k # l # ks) = k @ ''/'' @ joinSlash (l # ks)"

definition parentsOf :: "string \<Rightarrow> string list" where
  "parentsOf p =
     (let ks = SplitByte (CHR ''/'') p
      in map (\<lambda>n. joinSlash (take n ks)) (rev [1..<length ks]))"

definition env0 :: Env where
  "env0 = \<lparr>baseDir = ''C:/ZapretUI'', releasesDir = ''C:/ZapretUI/releases'',
     logsDir = ''C:/ZapretUI/logs'', RUN_PROCESS_HIDDEN = False,
     pathJoin = (\<lambda>a b. a @ ''/'' @ b),
     pathIsAbs = (\<lambda>p. HasPrefix p ''C:/''),
     pathBase = (\<lambda>p. last (SplitByte (CHR ''/'') p)),
     pathDir = (\<lambda>p. rev (drop 1 (dropWhile (\<lambda>c. c \<noteq> CHR ''/'') (rev p)))),
     pathAncestors = parentsOf,
     codecString = (\<lambda>x. x),
     codecResults = (\<lambda>rs. rs),
     now = (\<lambda>t. 1000 + int t),
     ioRes = (\<lambda>t. None),
     writeRes = (\<lambda>t. WriteOk),
     bundledRes = (\<lambda>t. Inl (OsError ''no bundled release'')),
     latestRes = (\<lambda>t. Inr ''https://github.com/Flowseal/zapret-discord-youtube/releases/tag/1.9.0''),
     urlErr = (\<lambda>u. None),
     downloadRes = (\<lambda>t u. Inr \<lparr>StatusCode = 404, StatusText = ''404 Not Found'', Body = Inr (Inr [])\<rparr>),
     readDirRes = (\<lambda>t p.
        if p = ''C:/ZapretUI/releases/1.9.0'' then Inr sampleEntries
        else if p = ''C:/ZapretUI/releases/1.9.0/utils/test results'' then
          Inr [\<lparr>eName = ''test_results_1.txt'', eIsDir = False, eInfo = Inr 200,
                eData = Inr sampleReport\<rparr>]
        else Inl (OsError ''not found'')),
     tasklistRes = (\<lambda>t pid. Inr ''INFO: No tasks are running which match the specified criteria.''),
     launchRes = (\<lambda>t p. Inr [])\<rparr>"

definition cfg0 :: Config where
  "cfg0 = \<lparr>Version = ''1.9.0'', LastStrategy = ''general2.BAT'', LastTestAt = 900,
     TestResults = [(''old'', zeroResult\<lparr>Name := ''old'', Status := ''ok''\<rparr>)],
     BestStrategy = ''old'', Meta = [],
     Running = Some \<lparr>File = ''general2.BAT'', PID = 4242, StartedAt = 950\<rparr>,
     TestInProgress = False\<rparr>"

definition sys0 :: Sys where
  "sys0 = \<lparr>config = Some cfg0, disk = Some cfg0,
     fs = (\<lambda>p. if p \<in> set [''C:/ZapretUI'', ''C:/ZapretUI/releases'', ''C:/ZapretUI/logs'',
                              ''C:/ZapretUI/releases/1.9.0''] then Some Directory
                else if p = ''C:/ZapretUI/releases/1.9.0/general1.bat'' then Some RegularFile
                else None),
     tick = 0, trace = []\<rparr>"

text \<open>
  The same installation when release 2.0.0 has been published and its archive cannot be
  fetched; the installation with no release recorded; and the service before its first
  call, over a config file that records the running strategy but no version.
\<close>

definition envNew :: Env where
  "envNew = env0\<lparr>latestRes :=
     (\<lambda>t. Inr ''https://github.com/Flowseal/zapret-discord-youtube/releases/tag/2.0.0'')\<rparr>"

definition sysIdle :: Sys where
  "sysIdle = sys0\<lparr>config := Some (cfg0\<lparr>Version := []\<rparr>)\<rparr>"


text \<open>
  Release 2.0.0 with an archive of two entries, with an archive of none, and the
  installation with a regular file in the place of the \<open>logs\<close> directory.
\<close>

definition envGood :: Env where
  "envGood = envNew\<lparr>downloadRes := (\<lambda>t u. Inr \<lparr>StatusCode = 200, StatusText = ''200 OK'',
     Body = Inr (Inr [\<lparr>zName = ''bin'', zIsDir = True, zOpenErr = None, zReadErr = None\<rparr>,
                      \<lparr>zName = ''general.bat'', zIsDir = False, zOpenErr = None,
                         zReadErr = None\<rparr>])\<rparr>)\<rparr>"

definition envEmpty :: Env where
  "envEmpty = envNew\<lparr>downloadRes := (\<lambda>t u. Inr \<lparr>StatusCode = 200, StatusText = ''200 OK'',
     Body = Inr (Inr [])\<rparr>)\<rparr>"

definition sysBadLogs :: Sys where
  "sysBadLogs = sys0\<lparr>fs := (fs sys0)(''C:/ZapretUI/logs'' \<mapsto> RegularFile)\<rparr>"


section \<open>Properties of the report parser\<close>


lemma stdResult_status:
  "Status (stdResult m1 gs) = (if HTTP_ERR (stdResult m1 gs) = 0 \<and> PingFail (stdResult m1 gs) = 0 then ''ok'' else ''fail'')"
  "Fail (stdResult m1 gs) = 0" "Blocked (stdResult m1 gs) = 0"
  "HTTP_ERR (stdResult m1 gs) = atoi (gs ! 1)" "PingFail (stdResult m1 gs) = atoi (gs ! 4)"
  "Name (stdResult m1 gs) = TrimSpace m1"
  by (simp_all add: stdResult_def Let_def zeroResult_def)

lemma dpiResult_status:
  "Status (dpiResult m1 gs) = (if Fail (dpiResult m1 gs) = 0 \<and> Blocked (dpiResult m1 gs) = 0 then ''ok'' else ''fail'')"
  "HTTP_ERR (dpiResult m1 gs) = 0" "PingFail (dpiResult m1 gs) = 0"
  "Fail (dpiResult m1 gs) = atoi (gs ! 1)" "Blocked (dpiResult m1 gs) = atoi (gs ! 3)"
  "Name (dpiResult m1 gs) = TrimSpace m1"
  by (simp_all add: dpiResult_def Let_def zeroResult_def)

lemma parseLine_Store:
  assumes "parseLine raw = Store r"
  shows "(\<exists>m1 gs. reStd (TrimSpace raw) = Some (m1, gs) \<and> r = stdResult m1 gs)
       \<or> (reStd (TrimSpace raw) = None \<and> (\<exists>m1 gs. reDpi (TrimSpace raw) = Some (m1, gs) \<and> r = dpiResult m1 gs))"
  using assms by (auto simp: parseLine_def Let_def split: if_splits option.splits)

lemma parseLine_no_match:
  assumes "reStd (TrimSpace raw) = None" "reDpi (TrimSpace raw) = None"
  shows "parseLine raw \<noteq> Store r"
  using assms by (auto simp: parseLine_def Let_def split: if_splits option.splits)

lemma set_update_subset: "set (AList.update k v al) \<subseteq> insert (k, v) (set al)"
  by (induction al) auto

lemma update_not_Nil: "AList.update k v al \<noteq> []"
  by (cases al) auto

lemma parseLines_origin:
  assumes "parseLines ls results best = (results', best')" "(k, r) \<in> set results'"
  shows "(k, r) \<in> set results \<or> (\<exists>raw \<in> set ls. parseLine raw = Store r \<and> k = Name r)"
  using assms
proof (induction ls arbitrary: results best)
  case Nil
  then show ?case by simp
next
  case (Cons raw ls)
  show ?case
  proof (cases "parseLine raw")
    case Skip
    then show ?thesis using Cons by auto
  next
    case (SetBest b)
    then show ?thesis using Cons by auto
  next
    case (Store res)
    then have "parseLines ls (AList.update (Name res) res results) best = (results', best')"
      using Cons.prems(1) by simp
    from Cons.IH [OF this Cons.prems(2)] show ?thesis
      using Store set_update_subset [of "Name res" res results] by auto
  qed
qed

lemma parseLines_no_store:
  assumes "\<forall>raw \<in> set ls. \<forall>r. parseLine raw \<noteq> Store r"
  shows "fst (parseLines ls results best) = results"
  using assms
proof (induction ls arbitrary: best)
  case Nil
  then show ?case by simp
next
  case (Cons raw ls)
  then show ?case by (cases "parseLine raw") auto
qed

lemma parseLines_keeps: "results \<noteq> [] \<Longrightarrow> fst (parseLines ls results best) \<noteq> []"
proof (induction ls arbitrary: results best)
  case Nil
  then show ?case by simp
next
  case (Cons raw ls)
  then show ?case by (cases "parseLine raw") (auto simp: update_not_Nil)
qed

lemma parseLines_store:
  assumes "raw \<in> set ls" "parseLine raw = Store r"
  shows "fst (parseLines ls results best) \<noteq> []"
  using assms
proof (induction ls arbitrary: results best)
  case Nil
  then show ?case by simp
next
  case (Cons a ls)
  show ?case
  proof (cases "a = raw")
    case True
    then show ?thesis using Cons.prems parseLines_keeps [OF update_not_Nil] by simp
  next
    case False
    then show ?thesis using Cons by (cases "parseLine a") auto
  qed
qed

text \<open>
  Claim C1. Every line that \<open>parseAnalytics\<close> stores carries the status
  \<open>ok\<close> or \<open>fail\<close>. When the standard grammar reads the line, the status is
  \<open>ok\<close> exactly when \<open>HTTP_ERR\<close> and \<open>PingFail\<close> are both zero; when the line
  is left to the DPI grammar, exactly when \<open>Fail\<close> and \<open>Blocked\<close> are both zero. The
  grammars are tried in this order, so a line that fits both shapes is a standard line.
  Every entry of the returned map is the result of such a line, stored under its name, and
  its status is \<open>ok\<close> exactly when the four failure counters are all zero.
\<close>

theorem parse_status_deterministic:
  "(\<forall>raw r. parseLine raw = Store r \<longrightarrow>
      (Status r = ''ok'' \<or> Status r = ''fail'') \<and>
      (reStd (TrimSpace raw) \<noteq> None \<longrightarrow>
         (Status r = ''ok'' \<longleftrightarrow> HTTP_ERR r = 0 \<and> PingFail r = 0)) \<and>
      (reStd (TrimSpace raw) = None \<longrightarrow> reDpi (TrimSpace raw) \<noteq> None \<and>
         (Status r = ''ok'' \<longleftrightarrow> Fail r = 0 \<and> Blocked r = 0)))
   \<and> (\<forall>content p k r. parseAnalytics content = Inr p \<longrightarrow> (k, r) \<in> set (Results p) \<longrightarrow>
        (\<exists>raw \<in> set (SplitLines content). parseLine raw = Store r \<and> k = Name r) \<and>
        (Status r = ''ok'' \<longleftrightarrow>
           HTTP_ERR r = 0 \<and> PingFail r = 0 \<and> Fail r = 0 \<and> Blocked r = 0))"
proof -
  have line: "(Status r = ''ok'' \<or> Status r = ''fail'') \<and>
      (reStd (TrimSpace raw) \<noteq> None \<longrightarrow>
         (Status r = ''ok'' \<longleftrightarrow> HTTP_ERR r = 0 \<and> PingFail r = 0)) \<and>
      (reStd (TrimSpace raw) = None \<longrightarrow> reDpi (TrimSpace raw) \<noteq> None \<and>
         (Status r = ''ok'' \<longleftrightarrow> Fail r = 0 \<and> Blocked r = 0)) \<and>
      (Status r = ''ok'' \<longleftrightarrow>
           HTTP_ERR r = 0 \<and> PingFail r = 0 \<and> Fail r = 0 \<and> Blocked r = 0)"
    if "parseLine raw = Store r" for raw r
    using parseLine_Store [OF that]
    by (auto simp: stdResult_status dpiResult_status split: if_splits)
  have whole: "(\<exists>raw \<in> set (SplitLines content). parseLine raw = Store r \<and> k = Name r)"
    if "parseAnalytics content = Inr p" "(k, r) \<in> set (Results p)" for content p k r
  proof -
    obtain results best where pl: "parseLines (SplitLines content) [] [] = (results, best)"
      by (cases "parseLines (SplitLines content) [] []") auto
    with that(1) have "Results p = results"
      by (auto simp: parseAnalytics_def split: if_splits)
    with that(2) parseLines_origin [OF pl, of k r] show ?thesis by auto
  qed
  show ?thesis using line whole by blast
qed

text \<open>
  Claim C2. When neither grammar matches any line of the text, whatever marker,
  \<open>Best strategy:\<close> or blank lines it holds, \<open>parseAnalytics\<close> returns the error
  "no analytics parsed" and no result map.
\<close>

theorem parse_no_lines_error:
  assumes "\<forall>raw \<in> set (SplitLines content).
             reStd (TrimSpace raw) = None \<and> reDpi (TrimSpace raw) = None"
  shows "parseAnalytics content = Inl NoAnalyticsParsed"
proof -
  have "\<forall>raw \<in> set (SplitLines content). \<forall>r. parseLine raw \<noteq> Store r"
    using assms parseLine_no_match by blast
  then have "fst (parseLines (SplitLines content) [] []) = []"
    by (rule parseLines_no_store)
  then show ?thesis
    by (auto simp: parseAnalytics_def split: prod.splits)
qed

lemma parseAnalytics_error_iff:
  "parseAnalytics content = Inl NoAnalyticsParsed \<longleftrightarrow>
     (\<forall>raw \<in> set (SplitLines content). \<forall>r. parseLine raw \<noteq> Store r)"
proof
  assume "parseAnalytics content = Inl NoAnalyticsParsed"
  then have "fst (parseLines (SplitLines content) [] []) = []"
    by (auto simp: parseAnalytics_def split: prod.splits if_splits)
  then show "\<forall>raw \<in> set (SplitLines content). \<forall>r. parseLine raw \<noteq> Store r"
    using parseLines_store by blast
next
  assume "\<forall>raw \<in> set (SplitLines content). \<forall>r. parseLine raw \<noteq> Store r"
  then have "fst (parseLines (SplitLines content) [] []) = []"
    by (rule parseLines_no_store)
  then show "parseAnalytics content = Inl NoAnalyticsParsed"
    by (auto simp: parseAnalytics_def split: prod.splits)
qed


theorem parse_status_deterministic_witness:
  "parseLine ''nginx : HTTP OK: 5, ERR: 0, UNSUP: 0, Ping OK: 5, Fail: 0 '' =
     Store (stdResult ''nginx'' [''5'', ''0'', ''0'', ''5'', ''0''])
   \<and> reStd (TrimSpace ''nginx : HTTP OK: 5, ERR: 0, UNSUP: 0, Ping OK: 5, Fail: 0 '') \<noteq> None
   \<and> Status (stdResult ''nginx'' [''5'', ''0'', ''0'', ''5'', ''0'']) = ''ok''
   \<and> parseLine ''general1 : OK: 2, FAIL: 1, UNSUP: 0, BLOCKED: 1'' =
     Store (dpiResult ''general1'' [''2'', ''1'', ''0'', ''1''])
   \<and> reStd (TrimSpace ''general1 : OK: 2, FAIL: 1, UNSUP: 0, BLOCKED: 1'') = None
   \<and> reDpi (TrimSpace ''general1 : OK: 2, FAIL: 1, UNSUP: 0, BLOCKED: 1'') \<noteq> None
   \<and> Status (dpiResult ''general1'' [''2'', ''1'', ''0'', ''1'']) = ''fail''
   \<and> parseAnalytics ''a : HTTP OK: 1, ERR: 2, UNSUP: 0, Ping OK: 1, Fail: 0'' =
       Inr \<lparr>Results = [(''a'', stdResult ''a'' [''1'', ''2'', ''0'', ''1'', ''0''])], Best = []\<rparr>
   \<and> Status (stdResult ''a'' [''1'', ''2'', ''0'', ''1'', ''0'']) \<noteq> ''ok''"
proof -
  let ?l1 = "''nginx : HTTP OK: 5, ERR: 0, UNSUP: 0, Ping OK: 5, Fail: 0 ''"
  let ?r1 = "stdResult ''nginx'' [''5'', ''0'', ''0'', ''5'', ''0'']"
  let ?l2 = "''general1 : OK: 2, FAIL: 1, UNSUP: 0, BLOCKED: 1''"
  let ?r2 = "dpiResult ''general1'' [''2'', ''1'', ''0'', ''1'']"
  let ?c3 = "''a : HTTP OK: 1, ERR: 2, UNSUP: 0, Ping OK: 1, Fail: 0''"
  let ?r3 = "stdResult ''a'' [''1'', ''2'', ''0'', ''1'', ''0'']"
  have h1: "parseLine ?l1 = Store ?r1" by code_simp
  have s1: "reStd (TrimSpace ?l1) \<noteq> None" by code_simp
  have c1: "HTTP_ERR ?r1 = 0 \<and> PingFail ?r1 = 0" by code_simp
  have h2: "parseLine ?l2 = Store ?r2" by code_simp
  have s2: "reStd (TrimSpace ?l2) = None" by code_simp
  have c2: "\<not> (Fail ?r2 = 0 \<and> Blocked ?r2 = 0)" by code_simp
  have h3: "parseAnalytics ?c3 = Inr \<lparr>Results = [(''a'', ?r3)], Best = []\<rparr>" by code_simp
  have c3: "HTTP_ERR ?r3 \<noteq> 0" by code_simp
  note main = parse_status_deterministic
  from main h1 s1 c1 have "Status ?r1 = ''ok''" by blast
  moreover from main h2 s2 have "reDpi (TrimSpace ?l2) \<noteq> None" by blast
  moreover from main h2 s2 c2 have "Status ?r2 = ''fail''" by blast
  moreover from main [THEN conjunct2, rule_format, OF h3, of "''a''" ?r3] c3
  have "Status ?r3 \<noteq> ''ok''" by simp
  ultimately show ?thesis using h1 s1 h2 s2 h3 by simp
qed

theorem parse_no_lines_error_witness:
  "list_all (\<lambda>raw. reStd (TrimSpace raw) = None \<and> reDpi (TrimSpace raw) = None)
     (SplitLines (''=== ANALYTICS ==='' @ [CHR 0x0A, CHR 0x0A] @
        ''Best strategy: nginx'' @ [CHR 0x0D, CHR 0x0A] @ ''Testing general.bat ...''))
   \<and> parseAnalytics (''=== ANALYTICS ==='' @ [CHR 0x0A, CHR 0x0A] @
        ''Best strategy: nginx'' @ [CHR 0x0D, CHR 0x0A] @ ''Testing general.bat ...'') =
       Inl NoAnalyticsParsed"
proof -
  let ?c = "''=== ANALYTICS ==='' @ [CHR 0x0A, CHR 0x0A] @
        ''Best strategy: nginx'' @ [CHR 0x0D, CHR 0x0A] @ ''Testing general.bat ...''"
  have h: "list_all (\<lambda>raw. reStd (TrimSpace raw) = None \<and> reDpi (TrimSpace raw) = None)
     (SplitLines ?c)"
    by code_simp
  then have "\<forall>raw \<in> set (SplitLines ?c).
       reStd (TrimSpace raw) = None \<and> reDpi (TrimSpace raw) = None"
    by (simp only: list_all_iff)
  from parse_no_lines_error [OF this] h show ?thesis by simp
qed

section \<open>What each operation leaves unchanged\<close>

lemma archiveWork_append [simp]: "archiveWork (xs @ ys) = archiveWork xs @ archiveWork ys"
  by (simp add: archiveWork_def)

lemma saves_append [simp]: "saves (xs @ ys) = saves xs @ saves ys"
  by (simp add: saves_def)

lemma archiveWork_Nil [simp]: "archiveWork [] = []"
  by (simp add: archiveWork_def)

lemma saves_Nil [simp]: "saves [] = []"
  by (simp add: saves_def)

lemma archiveWork_single [simp]:
  "archiveWork [GetLatest] = []" "archiveWork [SaveConfig c] = []"
  "archiveWork [Exec n a] = []" "archiveWork [StartProcess p h] = []"
  "archiveWork [GetArchive u] = [GetArchive u]" "archiveWork [Extract p] = [Extract p]"
  by (simp_all add: archiveWork_def)

lemma saves_single [simp]:
  "saves [GetLatest] = []" "saves [SaveConfig c] = [SaveConfig c]"
  "saves [Exec n a] = []" "saves [StartProcess p h] = []"
  "saves [GetArchive u] = []" "saves [Extract p] = []"
  by (simp_all add: saves_def)

lemma step_fields [simp]:
  "config (step s) = config s" "disk (step s) = disk s" "fs (step s) = fs s"
  "trace (step s) = trace s" "tick (step s) = Suc (tick s)"
  by (simp_all add: step_def)

lemma emit_fields [simp]:
  "config (emit ev s) = config s" "disk (emit ev s) = disk s" "fs (emit ev s) = fs s"
  "trace (emit ev s) = trace s @ [ev]" "tick (emit ev s) = tick s"
  by (simp_all add: emit_def)

lemma modifyCfg_fields [simp]:
  "config (modifyCfg f s) = map_option f (config s)" "disk (modifyCfg f s) = disk s"
  "fs (modifyCfg f s) = fs s" "trace (modifyCfg f s) = trace s" "tick (modifyCfg f s) = tick s"
  by (simp_all add: modifyCfg_def)

lemma runCmd_fields [simp]:
  "config (runCmd n a s) = config s" "disk (runCmd n a s) = disk s" "fs (runCmd n a s) = fs s"
  "trace (runCmd n a s) = trace s @ [Exec n a]" "tick (runCmd n a s) = Suc (tick s)"
  by (simp_all add: runCmd_def)

lemma latestTag_fields [simp]:
  "config (snd (latestTag e s)) = config s" "disk (snd (latestTag e s)) = disk s"
  "fs (snd (latestTag e s)) = fs s" "trace (snd (latestTag e s)) = trace s @ [GetLatest]"
  "tick (snd (latestTag e s)) = Suc (tick s)"
  by (simp_all add: latestTag_def Let_def split: sum.splits)

lemma isPIDRunning_fields [simp]:
  "config (snd (isPIDRunning e pid s)) = config s" "disk (snd (isPIDRunning e pid s)) = disk s"
  "fs (snd (isPIDRunning e pid s)) = fs s"
  "archiveWork (trace (snd (isPIDRunning e pid s))) = archiveWork (trace s)"
  "saves (trace (snd (isPIDRunning e pid s))) = saves (trace s)"
  by (simp_all add: isPIDRunning_def Let_def split: sum.splits)

lemma parseLatestResult_fields [simp]:
  "config (snd (parseLatestResult e cur s)) = config s"
  "disk (snd (parseLatestResult e cur s)) = disk s"
  "fs (snd (parseLatestResult e cur s)) = fs s"
  "trace (snd (parseLatestResult e cur s)) = trace s"
  by (simp_all add: parseLatestResult_def Let_def split: sum.splits option.splits)

lemma saveConfig_fields [simp]:
  "config (snd (saveConfig e s)) = config s" "fs (snd (saveConfig e s)) = fs s"
  "archiveWork (trace (snd (saveConfig e s))) = archiveWork (trace s)"
  by (simp_all add: saveConfig_def Let_def split: option.splits writeOutcome.splits)

lemma saveQuiet_fields [simp]:
  "config (saveQuiet e s) = config s" "fs (saveQuiet e s) = fs s"
  "archiveWork (trace (saveQuiet e s)) = archiveWork (trace s)"
  by (simp_all add: saveQuiet_def)

lemma loadConfig_loaded [simp]: "config s = Some cfg \<Longrightarrow> loadConfig e s = (Inr cfg, s)"
  by (simp add: loadConfig_def)

lemma loadConfig_Inr: "loadConfig e s = (Inr cfg, s1) \<Longrightarrow> config s1 = Some cfg"
  by (auto simp: loadConfig_def Let_def split: option.splits prod.splits sum.splits if_splits)

lemma keepsDirs_refl [simp]: "keepsDirs s s"
  by (simp add: keepsDirs_def)

lemma keepsDirs_trans: "keepsDirs s s1 \<Longrightarrow> keepsDirs s1 s2 \<Longrightarrow> keepsDirs s s2"
  by (simp add: keepsDirs_def)

lemma fsOnly_refl [simp]: "fsOnly s s"
  by (simp add: fsOnly_def)

lemma fsOnly_trans: "fsOnly s s1 \<Longrightarrow> fsOnly s1 s2 \<Longrightarrow> fsOnly s s2"
  by (auto simp: fsOnly_def dest: keepsDirs_trans)

lemma fsOnly_step [simp]: "fsOnly s (step s)"
  by (simp add: fsOnly_def keepsDirs_def)

lemma mkdirUp_fsOnly: "mkdirUp e ps s = (r, s') \<Longrightarrow> fsOnly s s'"
proof (induction ps arbitrary: r s')
  case Nil
  then show ?case by simp
next
  case (Cons p ups)
  show ?case
  proof (cases "fs s p")
    case (Some n)
    with Cons.prems show ?thesis by (cases n) auto
  next
    case None
    obtain r1 s1 where u: "mkdirUp e ups s = (r1, s1)" by (cases "mkdirUp e ups s") auto
    note f1 = Cons.IH [OF u]
    have "s' = s1 \<or> s' = step s1 \<or> s' = step (s1\<lparr>fs := (fs s1)(p \<mapsto> Directory)\<rparr>)"
      using Cons.prems None u by (auto split: option.splits)
    moreover have "fsOnly s1 (step (s1\<lparr>fs := (fs s1)(p \<mapsto> Directory)\<rparr>))"
      by (auto simp: fsOnly_def keepsDirs_def)
    ultimately show ?thesis using f1 fsOnly_trans [OF f1] fsOnly_step by blast
  qed
qed

lemma MkdirAll_fsOnly: "MkdirAll e p s = (r, s') \<Longrightarrow> fsOnly s s'"
  unfolding MkdirAll_def by (rule mkdirUp_fsOnly)

lemma mkdirEach_fsOnly: "mkdirEach e ds s = (r, s') \<Longrightarrow> fsOnly s s'"
proof (induction ds arbitrary: s)
  case Nil
  then show ?case by simp
next
  case (Cons d ds)
  obtain r1 s1 where m: "MkdirAll e d s = (r1, s1)" by (cases "MkdirAll e d s") auto
  show ?case
  proof (cases r1)
    case None
    with m Cons.prems have "mkdirEach e ds s1 = (r, s')" by simp
    from fsOnly_trans [OF MkdirAll_fsOnly [OF m] Cons.IH [OF this]] show ?thesis .
  next
    case (Some err)
    with m Cons.prems have "s' = s1" by simp
    with MkdirAll_fsOnly [OF m] show ?thesis by simp
  qed
qed

lemma ensureDirs_fsOnly: "ensureDirs e s = (r, s') \<Longrightarrow> fsOnly s s'"
  unfolding ensureDirs_def by (rule mkdirEach_fsOnly)

lemma copyDir_fsOnly: "copyDir e dst s = (r, s') \<Longrightarrow> fsOnly s s'"
proof -
  assume a: "copyDir e dst s = (r, s')"
  show ?thesis
  proof (cases "ioRes e (tick s)")
    case (Some err)
    with a show ?thesis by (auto simp: copyDir_def)
  next
    case None
    obtain r1 s1 where m: "MkdirAll e dst (step s) = (r1, s1)"
      by (cases "MkdirAll e dst (step s)") auto
    have "fsOnly s s1" using fsOnly_trans [OF fsOnly_step MkdirAll_fsOnly [OF m]] .
    moreover have "s' = s1 \<or> s' = step s1"
      using a None m by (auto simp: copyDir_def split: option.splits)
    ultimately show ?thesis using fsOnly_trans [OF _ fsOnly_step] by auto
  qed
qed

lemma seedLocalRelease_fsOnly: "seedLocalRelease e s = (r, s') \<Longrightarrow> fsOnly s s'"
proof -
  assume a: "seedLocalRelease e s = (r, s')"
  show ?thesis
  proof (cases "s' = step s")
    case True
    then show ?thesis by simp
  next
    case False
    with a obtain dst r1 where "copyDir e dst (step s) = (r1, s')"
      by (auto simp: seedLocalRelease_def Let_def split: sum.splits if_splits prod.splits option.splits)
    from fsOnly_trans [OF fsOnly_step copyDir_fsOnly [OF this]] show ?thesis .
  qed
qed

text \<open>\<open>loadConfig\<close> sets \<open>s.config\<close> and touches nothing but directories.\<close>

lemma loadConfig_frame:
  assumes "loadConfig e s = (r, s')"
  shows "disk s' = disk s \<and> trace s' = trace s \<and> keepsDirs s s'"
proof (cases "config s")
  case (Some cfg)
  with assms show ?thesis by (simp add: loadConfig_def)
next
  case None
  obtain r1 s1 where en: "ensureDirs e s = (r1, s1)" by (cases "ensureDirs e s") auto
  note f1 = ensureDirs_fsOnly [OF en]
  show ?thesis
  proof (cases r1)
    case (Some err)
    with assms None en have "s' = s1" by (simp add: loadConfig_def)
    with f1 show ?thesis by (simp add: fsOnly_def)
  next
    case r1: None
    obtain r2 s2 where sd: "seedLocalRelease e s1 = (r2, s2)"
      by (cases "seedLocalRelease e s1") auto
    note f2 = fsOnly_trans [OF f1 seedLocalRelease_fsOnly [OF sd]]
    have "(\<exists>c. s' = s1\<lparr>config := c\<rparr>) \<or> (\<exists>c. s' = s2\<lparr>config := c\<rparr>)"
      using assms None en r1 sd
      by (auto simp: loadConfig_def Let_def split: if_splits sum.splits)
    then show ?thesis using f1 f2 by (auto simp: fsOnly_def keepsDirs_def)
  qed
qed

lemma loadConfig_Inl: "loadConfig e s = (Inl err, s1) \<Longrightarrow> config s1 = None"
proof -
  assume a: "loadConfig e s = (Inl err, s1)"
  then have n: "config s = None" by (cases "config s") (auto simp: loadConfig_def)
  obtain r1 s' where en: "ensureDirs e s = (r1, s')" by (cases "ensureDirs e s") auto
  from a n en have "s1 = s'"
    by (auto simp: loadConfig_def Let_def split: option.splits if_splits prod.splits sum.splits)
  with ensureDirs_fsOnly [OF en] n show ?thesis by (simp add: fsOnly_def)
qed

lemma currentReleasePath_loaded [simp]:
  "config s = Some cfg \<Longrightarrow> currentReleasePath e s =
     (if Version cfg = [] then None else Some (pathJoin e (releasesDir e) (Version cfg)), s)"
  by (simp add: currentReleasePath_def)

lemma listStrategies_fields [simp]:
  assumes "config s = Some cfg"
  shows "config (snd (listStrategies e s)) = config s" "disk (snd (listStrategies e s)) = disk s"
  "fs (snd (listStrategies e s)) = fs s" "trace (snd (listStrategies e s)) = trace s"
  using assms by (simp_all add: listStrategies_def split: sum.splits)

lemma saveConfig_disk:
  "config s = Some c \<Longrightarrow> writeRes e (tick s) = WriteOk \<Longrightarrow>
   disk (saveQuiet e s) = Some (jsonCodec e c)"
  by (simp add: saveQuiet_def saveConfig_def Let_def)

lemma saveQuiet_saves:
  "config s = Some c \<Longrightarrow> saves (trace (saveQuiet e s)) = saves (trace s) @ [SaveConfig c]"
  by (simp add: saveQuiet_def saveConfig_def Let_def split: writeOutcome.splits)

lemma rehydrate_frame:
  "fs (rehydrate e cur s) = fs s" "archiveWork (trace (rehydrate e cur s)) = archiveWork (trace s)"
  by (cases "parseLatestResult e cur s"; cases "fst (parseLatestResult e cur s)";
      use parseLatestResult_fields [of e cur s] in \<open>auto simp: rehydrate_def\<close>)+

lemma rehydrate_config:
  assumes "config s = Some c"
  shows "config (rehydrate e cur s) =
     Some (case parseLatestResult e cur s of
             (Inr latest, s1) \<Rightarrow> if Results latest \<noteq> [] then c\<lparr>TestResults := Results latest, BestStrategy := Best latest\<rparr> else c
           | (Inl err, s1) \<Rightarrow> c)"
  using assms parseLatestResult_fields(1) [of e cur s]
  by (cases "parseLatestResult e cur s"; cases "fst (parseLatestResult e cur s)")
     (auto simp: rehydrate_def)

lemma validateRunning_frame:
  "fs (validateRunning e s) = fs s"
  "archiveWork (trace (validateRunning e s)) = archiveWork (trace s)"
  by (cases "config s"; cases "Running (the (config s))";
      cases "isPIDRunning e (PID (the (Running (the (config s))))) s";
      cases "fst (isPIDRunning e (PID (the (Running (the (config s))))) s)";
      use isPIDRunning_fields [of e "PID (the (Running (the (config s))))" s] in
        \<open>auto simp: validateRunning_def\<close>)+

lemma validateRunning_config:
  assumes "config s = Some c"
  shows "config (validateRunning e s) =
     Some (case Running c of None \<Rightarrow> c
           | Some ri \<Rightarrow> if fst (isPIDRunning e (PID ri) s) then c else c\<lparr>Running := None\<rparr>)"
proof (cases "Running c")
  case None
  with assms show ?thesis by (simp add: validateRunning_def)
next
  case (Some ri)
  obtain b s1 where i: "isPIDRunning e (PID ri) s = (b, s1)"
    by (cases "isPIDRunning e (PID ri) s") auto
  then have "config s1 = config s" using isPIDRunning_fields(1) [of e "PID ri" s] by simp
  with assms Some i show ?thesis by (cases b) (auto simp: validateRunning_def)
qed

lemma refresh_loaded:
  assumes "config s = Some c"
  shows "refresh e s = (if Version c = [] then s
           else validateRunning e (rehydrate e (pathJoin e (releasesDir e) (Version c)) s))"
  using assms by (simp add: refresh_def)

lemma refresh_frame:
  assumes "config s = Some c"
  shows "fs (refresh e s) = fs s" "archiveWork (trace (refresh e s)) = archiveWork (trace s)"
  using assms by (simp_all add: refresh_loaded validateRunning_frame rehydrate_frame)

lemma refresh_config:
  assumes "config s = Some c"
  shows "\<exists>c'. config (refresh e s) = Some c' \<and> Version c' = Version c \<and>
           LastStrategy c' = LastStrategy c \<and> (Running c = None \<longrightarrow> Running c' = None)"
proof (cases "Version c = []")
  case True
  with assms show ?thesis by (simp add: refresh_loaded)
next
  case False
  let ?cur = "pathJoin e (releasesDir e) (Version c)"
  from rehydrate_config [OF assms, of e ?cur] obtain c1 where
    c1: "config (rehydrate e ?cur s) = Some c1" "Version c1 = Version c"
      "LastStrategy c1 = LastStrategy c" "Running c1 = Running c"
    by (auto split: prod.splits sum.splits if_splits)
  from validateRunning_config [OF c1(1), of e] obtain c2 where
    c2: "config (validateRunning e (rehydrate e ?cur s)) = Some c2" "Version c2 = Version c1"
      "LastStrategy c2 = LastStrategy c1" "Running c1 = None \<longrightarrow> Running c2 = None"
    by (auto split: option.splits if_splits)
  with c1 False assms show ?thesis by (simp add: refresh_loaded)
qed

text \<open>What \<open>State\<close> returns once the config is loaded.\<close>

lemma State_loaded:
  assumes "config s = Some c0" "config (refresh e s) = Some c"
  shows "\<exists>st s'. State e s = (Inr st, s') \<and> stConfig st = c \<and> config s' = Some c \<and>
           stRunning st = Running c \<and>
           LatestTag st = (case fst (latestTag e (refresh e s)) of Inr t \<Rightarrow> t | Inl err \<Rightarrow> []) \<and>
           HasUpdate st = (LatestTag st \<noteq> [] \<and> LatestTag st \<noteq> Version c) \<and>
           fs s' = fs (refresh e s) \<and> disk s' = disk (refresh e s) \<and>
           trace s' = trace (refresh e s) @ [GetLatest]"
proof -
  let ?s3 = "refresh e s"
  obtain r4 s4 where l: "latestTag e ?s3 = (r4, s4)" by (cases "latestTag e ?s3") auto
  have s4: "config s4 = Some c" "fs s4 = fs ?s3" "disk s4 = disk ?s3" "trace s4 = trace ?s3 @ [GetLatest]"
    using latestTag_fields [of e ?s3] l assms(2) by simp_all
  obtain r5 s5 where ls: "listStrategies e s4 = (r5, s5)" by (cases "listStrategies e s4") auto
  have s5: "config s5 = Some c" "fs s5 = fs s4" "disk s5 = disk s4" "trace s5 = trace s4"
    using listStrategies_fields [OF s4(1), of e] ls s4(1) by simp_all
  show ?thesis
    using assms l ls s4 s5
    by (cases r4; cases r5) (simp_all add: State_def Let_def)
qed

lemma storeOnly_refl [simp]: "storeOnly s s"
  by (simp add: storeOnly_def)

lemma storeOnly_trans: "storeOnly s s1 \<Longrightarrow> storeOnly s1 s2 \<Longrightarrow> storeOnly s s2"
  by (auto simp: storeOnly_def dest: keepsDirs_trans)

lemma fsOnly_storeOnly: "fsOnly s s' \<Longrightarrow> storeOnly s s'"
  by (simp add: fsOnly_def storeOnly_def)

lemma storeOnly_step [simp]: "storeOnly s (step s)"
  by (simp add: storeOnly_def keepsDirs_def)

lemma storeOnly_emit: "saves [ev] = [] \<Longrightarrow> storeOnly s (emit ev s)"
  by (simp add: storeOnly_def keepsDirs_def)

lemma MkdirAll_storeOnly: "MkdirAll e p s = (r, s') \<Longrightarrow> storeOnly s s'"
  by (rule fsOnly_storeOnly [OF MkdirAll_fsOnly])

lemma createFile_storeOnly: "createFile e fp s = (r, s') \<Longrightarrow> storeOnly s s'"
  by (auto simp: createFile_def storeOnly_def keepsDirs_def
      split: option.splits node.splits if_splits)

lemma copyEntry_storeOnly: "copyEntry e f s = (r, s') \<Longrightarrow> storeOnly s s'"
  by (auto simp: copyEntry_def split: option.splits)

lemma unzipEntries_storeOnly: "unzipEntries e dest files s = (r, s') \<Longrightarrow> storeOnly s s'"
proof (induction files arbitrary: s)
  case Nil
  then show ?case by simp
next
  case (Cons f rest)
  let ?fp = "pathJoin e dest (zName f)"
  let ?s0 = "emit (Extract ?fp) s"
  have s0: "storeOnly s ?s0" by (simp add: storeOnly_emit)
  show ?case
  proof (cases "zIsDir f")
    case True
    obtain r1 s1 where m: "MkdirAll e ?fp ?s0 = (r1, s1)"
      by (cases "MkdirAll e ?fp ?s0") auto
    note f1 = storeOnly_trans [OF s0 MkdirAll_storeOnly [OF m]]
    show ?thesis
    proof (cases r1)
      case None
      with Cons.prems True m have "unzipEntries e dest rest s1 = (r, s')" by (simp add: Let_def)
      from storeOnly_trans [OF f1 Cons.IH [OF this]] show ?thesis .
    next
      case (Some err)
      with Cons.prems True m have "s' = s1" by (simp add: Let_def)
      with f1 show ?thesis by simp
    qed
  next
    case False
    obtain r1 s1 where m: "MkdirAll e (pathDir e ?fp) ?s0 = (r1, s1)"
      by (cases "MkdirAll e (pathDir e ?fp) ?s0") auto
    note f1 = storeOnly_trans [OF s0 MkdirAll_storeOnly [OF m]]
    obtain r2 s2 where c: "createFile e ?fp s1 = (r2, s2)" by (cases "createFile e ?fp s1") auto
    note f2 = storeOnly_trans [OF f1 createFile_storeOnly [OF c]]
    obtain r3 s3 where cp: "copyEntry e f s2 = (r3, s3)" by (cases "copyEntry e f s2") auto
    note f3 = storeOnly_trans [OF f2 copyEntry_storeOnly [OF cp]]
    have "s' = s1 \<or> s' = s2 \<or> s' = s3 \<or> unzipEntries e dest rest s3 = (r, s')"
      using Cons.prems False m c cp
      by (auto simp: Let_def split: option.splits)
    then show ?thesis using f1 f2 f3 Cons.IH storeOnly_trans by blast
  qed
qed

lemma downloadAndUnpack_storeOnly:
  assumes "downloadAndUnpack e tag s = (r, s')"
  shows "storeOnly s s'"
proof (cases "tag = []")
  case True
  with assms show ?thesis by (simp add: downloadAndUnpack_def)
next
  case False
  obtain r1 s1 where en: "ensureDirs e s = (r1, s1)" by (cases "ensureDirs e s") auto
  note f1 = fsOnly_storeOnly [OF ensureDirs_fsOnly [OF en]]
  let ?s2 = "step (emit (GetArchive (downloadURL tag)) s1)"
  have f2: "storeOnly s ?s2"
    using storeOnly_trans [OF f1 storeOnly_trans [OF storeOnly_emit storeOnly_step]] by simp
  have "s' = s1 \<or> s' = ?s2 \<or>
     (\<exists>files. unzipEntries e (pathJoin e (releasesDir e) tag) files ?s2 = (r, s'))"
    using assms False en
    by (auto simp: downloadAndUnpack_def unzipBuffer_def Let_def
        split: option.splits if_splits sum.splits)
  then show ?thesis using f1 f2 unzipEntries_storeOnly storeOnly_trans by blast
qed

lemma State_after_load: "loadConfig e s = (Inr c0, s1) \<Longrightarrow> State e s = State e s1"
  using loadConfig_Inr [of e s c0 s1] by (simp add: State_def)

text \<open>
  Claim C3. A state read that loads the config returns a snapshot whose \<open>HasUpdate\<close>
  flag is true exactly when the latest tag (the tag \<open>latestTag\<close> resolved in this read,
  empty when the request failed) is not empty and differs from the version of the
  persisted config, which the read leaves as loaded. When \<open>CheckAndUpdate\<close> resolves a
  non-empty tag equal to the recorded version, it is the state read and nothing more: no
  download request and no extraction enter the trace, no path changes, and the version
  stays.
\<close>

theorem update_gating:
  "(\<forall>e s c0 s1. loadConfig e s = (Inr c0, s1) \<longrightarrow>
      (\<exists>st s'. State e s = (Inr st, s') \<and>
         LatestTag st = (case fst (latestTag e (refresh e s1)) of Inr t \<Rightarrow> t | Inl err \<Rightarrow> []) \<and>
         HasUpdate st = (LatestTag st \<noteq> [] \<and> LatestTag st \<noteq> Version (stConfig st)) \<and>
         Version (stConfig st) = Version c0 \<and> config s' = Some (stConfig st)))
   \<and> (\<forall>e s cfg s1 latest s2.
        loadConfig e s = (Inr cfg, s1) \<longrightarrow> latestTag e s1 = (Inr latest, s2) \<longrightarrow>
        Version cfg = latest \<longrightarrow> latest \<noteq> [] \<longrightarrow>
        CheckAndUpdate e s = State e s2 \<and>
        (\<exists>st s'. CheckAndUpdate e s = (Inr st, s') \<and> Version (stConfig st) = Version cfg \<and>
           config s' = Some (stConfig st) \<and>
           archiveWork (trace s') = archiveWork (trace s) \<and> fs s' = fs s1))"
proof -
  have a: "\<exists>st s'. State e s = (Inr st, s') \<and>
         LatestTag st = (case fst (latestTag e (refresh e s1)) of Inr t \<Rightarrow> t | Inl err \<Rightarrow> []) \<and>
         HasUpdate st = (LatestTag st \<noteq> [] \<and> LatestTag st \<noteq> Version (stConfig st)) \<and>
         Version (stConfig st) = Version c0 \<and> config s' = Some (stConfig st)"
    if "loadConfig e s = (Inr c0, s1)" for e s c0 s1
  proof -
    have c: "config s1 = Some c0" using that by (rule loadConfig_Inr)
    from refresh_config [OF c, of e] obtain c' where
      c': "config (refresh e s1) = Some c'" "Version c' = Version c0" by blast
    from State_loaded [OF c c'(1)] State_after_load [OF that] c'(2)
    show ?thesis by auto
  qed
  have b: "CheckAndUpdate e s = State e s2 \<and>
        (\<exists>st s'. CheckAndUpdate e s = (Inr st, s') \<and> Version (stConfig st) = Version cfg \<and>
           config s' = Some (stConfig st) \<and>
           archiveWork (trace s') = archiveWork (trace s) \<and> fs s' = fs s1)"
    if "loadConfig e s = (Inr cfg, s1)" "latestTag e s1 = (Inr latest, s2)"
       "Version cfg = latest" "latest \<noteq> []" for e s cfg s1 latest s2
  proof -
    have eq: "CheckAndUpdate e s = State e s2" using that by (simp add: CheckAndUpdate_def)
    have c1: "config s1 = Some cfg" using that(1) by (rule loadConfig_Inr)
    have s2: "config s2 = Some cfg" "fs s2 = fs s1" "trace s2 = trace s1 @ [GetLatest]"
      using latestTag_fields [of e s1] that(2) c1 by simp_all
    have t1: "trace s1 = trace s" using loadConfig_frame [OF that(1)] by simp
    from refresh_config [OF s2(1), of e] obtain c' where
      c': "config (refresh e s2) = Some c'" "Version c' = Version cfg" by blast
    from State_loaded [OF s2(1) c'(1)] obtain st s' where
      st: "State e s2 = (Inr st, s')" "stConfig st = c'" "config s' = Some c'"
        "fs s' = fs (refresh e s2)" "trace s' = trace (refresh e s2) @ [GetLatest]"
      by blast
    have "archiveWork (trace s') = archiveWork (trace s)"
      using st(5) refresh_frame(2) [OF s2(1), of e] s2(3) t1 by simp
    moreover have "fs s' = fs s1" using st(4) refresh_frame(1) [OF s2(1), of e] s2(2) by simp
    ultimately show ?thesis using eq st c' by simp
  qed
  show ?thesis using a b by blast
qed

text \<open>
  Claim C4. When \<open>downloadAndUnpack\<close> fails inside \<open>CheckAndUpdate\<close> (the request,
  the status, reading the body, the archive or the extraction), \<open>CheckAndUpdate\<close> returns
  that error, the loaded config is as it was, the config file is untouched and no write of
  it was attempted: the version is assigned and saved only after a successful unpack.
\<close>

theorem failed_download_keeps_version:
  assumes "loadConfig e s = (Inr cfg, s1)" and "latestTag e s1 = (Inr latest, s2)"
    and "\<not> (Version cfg = latest \<and> latest \<noteq> [])"
    and "downloadAndUnpack e latest s2 = (Some err, s3)"
  shows "CheckAndUpdate e s = (Inl err, s3) \<and> config s3 = Some cfg \<and>
         disk s3 = disk s \<and> saves (trace s3) = saves (trace s)"
proof -
  have r: "CheckAndUpdate e s = (Inl err, s3)"
    using assms by (auto simp: CheckAndUpdate_def)
  have c1: "config s1 = Some cfg" using assms(1) by (rule loadConfig_Inr)
  have f1: "disk s1 = disk s" "trace s1 = trace s" using loadConfig_frame [OF assms(1)] by simp_all
  have s2: "config s2 = Some cfg" "disk s2 = disk s1" "trace s2 = trace s1 @ [GetLatest]"
    using latestTag_fields [of e s1] assms(2) c1 by simp_all
  from downloadAndUnpack_storeOnly [OF assms(4)] s2 f1 r show ?thesis
    by (simp add: storeOnly_def)
qed


section \<open>State reads\<close>

lemma isPIDRunning_fst: "fst (isPIDRunning e pid s) = pidAlive e (tick s) pid"
  by (auto simp: isPIDRunning_def pidAlive_def Let_def split: sum.splits)

lemma isPIDRunning_more:
  "set (trace s) \<subseteq> set (trace (snd (isPIDRunning e pid s)))"
  by (auto simp: isPIDRunning_def Let_def split: sum.splits)

lemma saveQuiet_trace:
  "trace (saveQuiet e s) = trace s @ (case config s of None \<Rightarrow> [] | Some c \<Rightarrow> [SaveConfig c])"
  by (simp add: saveQuiet_def saveConfig_def Let_def split: option.splits writeOutcome.splits)

lemma saveQuiet_disk:
  "config s = Some c \<Longrightarrow> disk (saveQuiet e s) =
     (case writeRes e (tick s) of WriteOk \<Rightarrow> Some (jsonCodec e c)
      | OpenFailed err \<Rightarrow> disk s | WriteFailed err \<Rightarrow> None)"
  by (simp add: saveQuiet_def saveConfig_def Let_def split: writeOutcome.splits)

lemma parseLatestResult_nonempty:
  "parseLatestResult e cur s = (Inr latest, s1) \<Longrightarrow> Results latest \<noteq> []"
  by (auto simp: parseLatestResult_def parseAnalytics_def Let_def
      split: sum.splits option.splits prod.splits if_splits)

lemma rehydrate_found:
  assumes "parseLatestResult e cur s = (Inr latest, s1)"
  shows "rehydrate e cur s = saveQuiet e (modifyCfg (\<lambda>cfg. cfg\<lparr>TestResults := Results latest,
                                             BestStrategy := Best latest\<rparr>) s1)"
  using assms parseLatestResult_nonempty [OF assms] by (simp add: rehydrate_def)


lemma validateRunning_none:
  "config s = Some c \<Longrightarrow> Running c = None \<Longrightarrow> validateRunning e s = s"
  by (simp add: validateRunning_def)

lemma validateRunning_alive:
  "config s = Some c \<Longrightarrow> Running c = Some ri \<Longrightarrow> pidAlive e (tick s) (PID ri) \<Longrightarrow>
   validateRunning e s = snd (isPIDRunning e (PID ri) s)"
  using isPIDRunning_fst [of e "PID ri" s]
  by (cases "isPIDRunning e (PID ri) s") (auto simp: validateRunning_def)

lemma validateRunning_dead:
  "config s = Some c \<Longrightarrow> Running c = Some ri \<Longrightarrow> \<not> pidAlive e (tick s) (PID ri) \<Longrightarrow>
   validateRunning e s =
     saveQuiet e (modifyCfg (\<lambda>cfg. cfg\<lparr>Running := None\<rparr>) (snd (isPIDRunning e (PID ri) s)))"
  using isPIDRunning_fst [of e "PID ri" s]
  by (cases "isPIDRunning e (PID ri) s") (auto simp: validateRunning_def)

lemma validateRunning_trace: "set (trace s) \<subseteq> set (trace (validateRunning e s))"
proof (cases "config s")
  case None
  then show ?thesis by (simp add: validateRunning_def)
next
  case (Some c)
  show ?thesis
  proof (cases "Running c")
    case None
    with Some show ?thesis by (simp add: validateRunning_none)
  next
    case (Some ri)
    note r = this
    show ?thesis
    proof (cases "pidAlive e (tick s) (PID ri)")
      case True
      with \<open>config s = Some c\<close> r show ?thesis
        by (simp add: validateRunning_alive isPIDRunning_more)
    next
      case False
      have "\<And>x. x \<in> set (trace s) \<Longrightarrow> x \<in> set (trace (snd (isPIDRunning e (PID ri) s)))"
        using isPIDRunning_more by blast
      moreover have "validateRunning e s =
          saveQuiet e (modifyCfg (\<lambda>cfg. cfg\<lparr>Running := None\<rparr>) (snd (isPIDRunning e (PID ri) s)))"
        using \<open>config s = Some c\<close> r False by (rule validateRunning_dead)
      ultimately show ?thesis by (auto simp: saveQuiet_trace)
    qed
  qed
qed

text \<open>
  The file and the config agree (\<open>inSync\<close>) after a write that succeeds; a state read
  leaves them so when every write succeeds.
\<close>

lemma jsonCodec_fields [simp]:
  "Version (jsonCodec e c) = codecString e (Version c)"
  "LastStrategy (jsonCodec e c) = codecString e (LastStrategy c)"
  "TestResults (jsonCodec e c) = codecResults e (TestResults c)"
  "BestStrategy (jsonCodec e c) = codecString e (BestStrategy c)"
  "(Running (jsonCodec e c) = None) = (Running c = None)"
  by (simp_all add: jsonCodec_def)

lemma saveQuiet_inSync:
  "config s = Some c \<Longrightarrow> \<forall>t. writeRes e t = WriteOk \<Longrightarrow> inSync e (saveQuiet e s)"
  by (simp add: inSync_def saveQuiet_disk)

lemma validateRunning_inSync:
  assumes "config s = Some c" "\<forall>t. writeRes e t = WriteOk" "inSync e s"
  shows "inSync e (validateRunning e s)"
proof (cases "Running c")
  case None
  with assms show ?thesis by (simp add: validateRunning_none)
next
  case (Some ri)
  show ?thesis
  proof (cases "pidAlive e (tick s) (PID ri)")
    case True
    with assms Some show ?thesis by (simp add: validateRunning_alive inSync_def)
  next
    case False
    with assms Some show ?thesis by (simp add: validateRunning_dead saveQuiet_inSync)
  qed
qed





text \<open>
  Claim C10. A state read is not free of effects on the results. When a release is active
  and the report modified last in its \<open>test results\<close> directory parses (its result map
  is then not empty), \<open>State\<close> puts the parsed results and best strategy in the place
  of those of the config, writes the config file with them, and returns them; when the
  writes succeed the file holds what the encoder writes for these results and this best
  strategy.
\<close>

theorem state_read_replaces_results:
  assumes "loadConfig e s = (Inr c0, s1)" and "Version c0 \<noteq> []"
    and "parseLatestResult e (pathJoin e (releasesDir e) (Version c0)) s1 = (Inr latest, s2)"
  shows "\<exists>st s'. State e s = (Inr st, s') \<and> Results latest \<noteq> [] \<and>
           TestResults (stConfig st) = Results latest \<and>
           BestStrategy (stConfig st) = Best latest \<and>
           config s' = Some (stConfig st) \<and>
           SaveConfig (c0\<lparr>TestResults := Results latest, BestStrategy := Best latest\<rparr>)
             \<in> set (trace s') \<and>
           ((\<forall>t. writeRes e t = WriteOk) \<longrightarrow>
              (\<exists>d. disk s' = Some d \<and> TestResults d = codecResults e (Results latest) \<and>
                   BestStrategy d = codecString e (Best latest)))"
proof -
  let ?cur = "pathJoin e (releasesDir e) (Version c0)"
  let ?c1 = "c0\<lparr>TestResults := Results latest, BestStrategy := Best latest\<rparr>"
  let ?sr = "rehydrate e ?cur s1"
  have c: "config s1 = Some c0" using assms(1) by (rule loadConfig_Inr)
  have c2: "config s2 = Some c0" "trace s2 = trace s1"
    using parseLatestResult_fields [of e ?cur s1] assms(3) c by simp_all
  have ne: "Results latest \<noteq> []" using assms(3) by (rule parseLatestResult_nonempty)
  have sr: "?sr = saveQuiet e (modifyCfg (\<lambda>cfg. cfg\<lparr>TestResults := Results latest,
                                             BestStrategy := Best latest\<rparr>) s2)"
    using assms(3) by (rule rehydrate_found)
  have r1: "config ?sr = Some ?c1" using sr c2 by simp
  have r2: "SaveConfig ?c1 \<in> set (trace ?sr)" using sr c2 by (simp add: saveQuiet_trace)
  have r3: "(\<forall>t. writeRes e t = WriteOk) \<longrightarrow> inSync e ?sr"
    using sr c2 by (simp add: saveQuiet_inSync)
  have rf: "refresh e s1 = validateRunning e ?sr"
    using c assms(2) by (simp add: refresh_loaded)
  from validateRunning_config [OF r1, of e] obtain c' where
    c': "config (refresh e s1) = Some c'" "TestResults c' = Results latest"
      "BestStrategy c' = Best latest"
    unfolding rf by (auto split: option.splits if_splits)
  have t: "SaveConfig ?c1 \<in> set (trace (refresh e s1))"
    unfolding rf using r2 validateRunning_trace by blast
  have d: "(\<forall>t. writeRes e t = WriteOk) \<longrightarrow> disk (refresh e s1) = Some (jsonCodec e c')"
    using validateRunning_inSync [OF r1, of e] r3 c'(1) unfolding rf by (auto simp: inSync_def)
  from State_loaded [OF c c'(1)] State_after_load [OF assms(1)] obtain st s' where
    "State e s = (Inr st, s')" "stConfig st = c'" "config s' = Some c'"
    "disk s' = disk (refresh e s1)" "trace s' = trace (refresh e s1) @ [GetLatest]"
    by auto
  with ne c' t d show ?thesis by auto
qed



section \<open>The strategy catalog\<close>

lemma selectStrategies_names:
  "map sName (selectStrategies e cur entries) =
     filter (\<lambda>n. HasPrefix (ToLower n) ''general'' \<and> HasSuffix (ToLower n) ''.bat'' \<and>
                 \<not> HasPrefix (ToLower n) ''service'')
       (map eName (filter (\<lambda>x. \<not> eIsDir x) entries))"
  by (induction entries) (auto simp: Let_def newStrategy_def)

lemma selectStrategies_files:
  "st \<in> set (selectStrategies e cur entries) \<Longrightarrow> sFile st = pathJoin e cur (sName st)"
  by (induction entries) (auto simp: Let_def newStrategy_def split: if_splits)

text \<open>
  Claim C6. Given the listing of the active release directory, \<open>listStrategies\<close> returns
  the strategies of exactly those entries that are not directories and whose name, in
  lower case, starts with \<open>general\<close> and ends with \<open>.bat\<close> and does not start with
  \<open>service\<close>, each with its path in the release, sorted by name in the bytewise
  order of strings. With no active release it returns the empty list and no error. Over
  the files \<open>general1.bat\<close>, \<open>general2.BAT\<close>, \<open>service.bat\<close> and \<open>readme.txt\<close>
  the names returned are \<open>general1.bat\<close>, \<open>general2.BAT\<close>.
\<close>

theorem strategies_listed_sorted:
  "(\<forall>e s current s1 entries.
      currentReleasePath e s = (Some current, s1) \<longrightarrow>
      readDirRes e (tick s1) current = Inr entries \<longrightarrow>
      (\<exists>res. listStrategies e s = (Inr res, step s1) \<and> sorted (map sName res) \<and>
         mset (map sName res) =
           mset (filter (\<lambda>n. HasPrefix (ToLower n) ''general'' \<and>
                             HasSuffix (ToLower n) ''.bat'' \<and>
                             \<not> HasPrefix (ToLower n) ''service'')
                  (map eName (filter (\<lambda>x. \<not> eIsDir x) entries))) \<and>
         (\<forall>st \<in> set res. sFile st = pathJoin e current (sName st))))
   \<and> (\<forall>e s s1. currentReleasePath e s = (None, s1) \<longrightarrow> listStrategies e s = (Inr [], s1))
   \<and> (\<forall>e current. map sName (sort_key sName (selectStrategies e current sampleEntries)) =
          [''general1.bat'', ''general2.BAT''])"
proof -
  have a: "\<exists>res. listStrategies e s = (Inr res, step s1) \<and> sorted (map sName res) \<and>
         mset (map sName res) =
           mset (filter (\<lambda>n. HasPrefix (ToLower n) ''general'' \<and>
                             HasSuffix (ToLower n) ''.bat'' \<and>
                             \<not> HasPrefix (ToLower n) ''service'')
                  (map eName (filter (\<lambda>x. \<not> eIsDir x) entries))) \<and>
         (\<forall>st \<in> set res. sFile st = pathJoin e current (sName st))"
    if "currentReleasePath e s = (Some current, s1)" "readDirRes e (tick s1) current = Inr entries"
    for e s current s1 entries
  proof -
    let ?res = "sort_key sName (selectStrategies e current entries)"
    have "listStrategies e s = (Inr ?res, step s1)" using that by (simp add: listStrategies_def)
    moreover have "sorted (map sName ?res)" by (rule sorted_sort_key)
    moreover have "mset (map sName ?res) = mset (map sName (selectStrategies e current entries))"
      by simp
    moreover have "\<forall>st \<in> set ?res. sFile st = pathJoin e current (sName st)"
      using selectStrategies_files by simp
    ultimately show ?thesis by (simp add: selectStrategies_names)
  qed
  have b: "listStrategies e s = (Inr [], s1)" if "currentReleasePath e s = (None, s1)" for e s s1
    using that by (simp add: listStrategies_def)
  have c: "map sName (sort_key sName (selectStrategies e current sampleEntries)) =
          [''general1.bat'', ''general2.BAT'']" for e current
    by code_simp
  show ?thesis using a b c by blast
qed

section \<open>Stopping and running a strategy\<close>

text \<open>The state after the three unconditional kill commands of \<open>StopRunning\<close>.\<close>

lemma StopRunning_loaded:
  assumes "config s = Some c0"
  shows "\<exists>s'. StopRunning e s = (None, s') \<and> config s' = Some (c0\<lparr>Running := None\<rparr>) \<and>
           fs s' = fs s \<and>
           (Running c0 = None \<longrightarrow> disk s' = disk s) \<and>
           (Running c0 \<noteq> None \<longrightarrow> SaveConfig (c0\<lparr>Running := None\<rparr>) \<in> set (trace s') \<and>
              ((\<forall>t. writeRes e t = WriteOk) \<longrightarrow>
                 disk s' = Some (jsonCodec e (c0\<lparr>Running := None\<rparr>))))"
proof (cases "Running c0")
  case None
  then have "c0\<lparr>Running := None\<rparr> = c0" by simp
  with assms None show ?thesis by (simp add: StopRunning_def Let_def)
next
  case (Some ri)
  let ?s4 = "runCmd ''wmic'' [''process'', ''where'',
                      ''name='' @ [CHR 0x27] @ ''winws.exe'' @ [CHR 0x27], ''delete'']
              (runCmd ''powershell''
                     [''-NoProfile'', ''-ExecutionPolicy'', ''Bypass'', ''-Command'', psScript]
                (runCmd ''taskkill'' [''/IM'', ''winws.exe'', ''/T'', ''/F''] s))"
  obtain b s5 where i: "isPIDRunning e (PID ri) ?s4 = (b, s5)"
    by (cases "isPIDRunning e (PID ri) ?s4") auto
  have "s5 = snd (isPIDRunning e (PID ri) ?s4)" using i by simp
  then have s5: "config s5 = Some c0" "fs s5 = fs s"
    using assms by simp_all
  let ?s7 = "if b then runCmd ''taskkill'' [''/PID'', showInt (PID ri), ''/T'', ''/F'']
                                 (runCmd ''powershell''
                                    [''-NoProfile'', ''-Command'',
                                     ''Stop-Process -Id '' @ showInt (PID ri) @
                                     '' -Force -ErrorAction SilentlyContinue''] s5)
             else s5"
  have s7: "config ?s7 = Some c0" "fs ?s7 = fs s" using s5 by simp_all
  have r: "StopRunning e s = (None, saveQuiet e (modifyCfg (\<lambda>cfg. cfg\<lparr>Running := None\<rparr>) ?s7))"
    using assms Some i by (cases b) (simp_all add: StopRunning_def Let_def)
  show ?thesis
    unfolding r using s7 Some
    by (simp add: saveQuiet_trace saveQuiet_disk)
qed

text \<open>
  Claim C7. After \<open>StopRunning\<close> the config in memory, when there is one, has no running
  entry, whatever the entry was before and whatever the process table and the kill
  commands answered; the only error \<open>StopRunning\<close> returns is that of \<open>loadConfig\<close>,
  never one of a termination command. When the config loads, \<open>StopRunning\<close> succeeds,
  the config is the loaded one with the entry cleared, a tracked entry makes it write the
  config file, and when the writes succeed and the file agreed with the config on the
  entry, the file has no entry either; \<open>StopStrategy\<close> then returns a snapshot with
  nothing running.
\<close>

theorem stop_clears_running:
  "(\<forall>e s r s'. StopRunning e s = (r, s') \<longrightarrow>
       (\<forall>c. config s' = Some c \<longrightarrow> Running c = None) \<and>
       r = (case fst (loadConfig e s) of Inl err \<Rightarrow> Some err | Inr c \<Rightarrow> None))
   \<and> (\<forall>e s c0 s1. loadConfig e s = (Inr c0, s1) \<longrightarrow>
       (\<exists>s'. StopRunning e s = (None, s') \<and> config s' = Some (c0\<lparr>Running := None\<rparr>) \<and>
          (Running c0 \<noteq> None \<longrightarrow> SaveConfig (c0\<lparr>Running := None\<rparr>) \<in> set (trace s')) \<and>
          ((\<forall>t. writeRes e t = WriteOk) \<longrightarrow>
           (\<forall>d. disk s = Some d \<longrightarrow> Running d = Running c0) \<longrightarrow>
           (\<forall>d. disk s' = Some d \<longrightarrow> Running d = None))) \<and>
       (\<exists>st s''. StopStrategy e s = (Inr st, s'') \<and> stRunning st = None \<and>
          Running (stConfig st) = None))"
proof -
  have after: "StopRunning e s = StopRunning e s1" if "loadConfig e s = (Inr c0, s1)" for e s c0 s1
    using that loadConfig_Inr [OF that] by (simp add: StopRunning_def)
  have b: "(\<exists>s'. StopRunning e s = (None, s') \<and> config s' = Some (c0\<lparr>Running := None\<rparr>) \<and>
          (Running c0 \<noteq> None \<longrightarrow> SaveConfig (c0\<lparr>Running := None\<rparr>) \<in> set (trace s')) \<and>
          ((\<forall>t. writeRes e t = WriteOk) \<longrightarrow>
           (\<forall>d. disk s = Some d \<longrightarrow> Running d = Running c0) \<longrightarrow>
           (\<forall>d. disk s' = Some d \<longrightarrow> Running d = None))) \<and>
       (\<exists>st s''. StopStrategy e s = (Inr st, s'') \<and> stRunning st = None \<and>
          Running (stConfig st) = None)"
    if l: "loadConfig e s = (Inr c0, s1)" for e s c0 s1
  proof -
    have c: "config s1 = Some c0" using l by (rule loadConfig_Inr)
    have d1: "disk s1 = disk s" using loadConfig_frame [OF l] by simp
    from StopRunning_loaded [OF c, of e] obtain s' where
      all: "StopRunning e s1 = (None, s') \<and> config s' = Some (c0\<lparr>Running := None\<rparr>) \<and>
           fs s' = fs s1 \<and>
           (Running c0 = None \<longrightarrow> disk s' = disk s1) \<and>
           (Running c0 \<noteq> None \<longrightarrow> SaveConfig (c0\<lparr>Running := None\<rparr>) \<in> set (trace s') \<and>
              ((\<forall>t. writeRes e t = WriteOk) \<longrightarrow>
                 disk s' = Some (jsonCodec e (c0\<lparr>Running := None\<rparr>))))" ..
    then have s': "StopRunning e s1 = (None, s')" "config s' = Some (c0\<lparr>Running := None\<rparr>)"
        "Running c0 = None \<longrightarrow> disk s' = disk s1"
        "Running c0 \<noteq> None \<longrightarrow> SaveConfig (c0\<lparr>Running := None\<rparr>) \<in> set (trace s') \<and>
              ((\<forall>t. writeRes e t = WriteOk) \<longrightarrow>
                 disk s' = Some (jsonCodec e (c0\<lparr>Running := None\<rparr>)))"
      by simp_all
    have sr: "StopRunning e s = (None, s')" using after [OF l] s'(1) by simp
    have dk: "(\<forall>t. writeRes e t = WriteOk) \<longrightarrow>
           (\<forall>d. disk s = Some d \<longrightarrow> Running d = Running c0) \<longrightarrow>
           (\<forall>d. disk s' = Some d \<longrightarrow> Running d = None)"
      using s'(3,4) d1 by (cases "Running c0") auto
    from refresh_config [OF s'(2), of e] obtain c' where
      c': "config (refresh e s') = Some c'" "Running c' = None" by auto
    from State_loaded [OF s'(2) c'(1)] obtain st s'' where
      "State e s' = (Inr st, s'')" "stConfig st = c'" "stRunning st = Running c'" by blast
    with sr c'(2) have "\<exists>st s''. StopStrategy e s = (Inr st, s'') \<and> stRunning st = None \<and>
          Running (stConfig st) = None"
      by (simp add: StopStrategy_def)
    with sr s'(2,4) dk show ?thesis by blast
  qed
  have a: "(\<forall>c. config s' = Some c \<longrightarrow> Running c = None) \<and>
       r = (case fst (loadConfig e s) of Inl err \<Rightarrow> Some err | Inr c \<Rightarrow> None)"
    if sr: "StopRunning e s = (r, s')" for e s r s'
  proof (cases "loadConfig e s")
    case (Pair x s1)
    show ?thesis
    proof (cases x)
      case (Inl err)
      with Pair sr have "r = Some err" "s' = s1" by (simp_all add: StopRunning_def)
      with loadConfig_Inl [of e s err s1] Pair Inl show ?thesis by simp
    next
      case (Inr c0)
      with Pair have l: "loadConfig e s = (Inr c0, s1)" by simp
      from b [OF l] sr l show ?thesis by auto
    qed
  qed
  show ?thesis using a b by blast
qed





section \<open>Unpacking a release twice\<close>

lemma MkdirAll_made: "MkdirAll e p s = (None, s') \<Longrightarrow> fs s' p = Some Directory"
  by (auto simp: MkdirAll_def split: option.splits node.splits prod.splits)

lemma MkdirAll_there: "fs s p = Some Directory \<Longrightarrow> MkdirAll e p s = (None, s)"
  by (simp add: MkdirAll_def)

lemma mkdirEach_made:
  "mkdirEach e ds s = (None, s') \<Longrightarrow> d \<in> set ds \<Longrightarrow> fs s' d = Some Directory"
proof (induction ds arbitrary: s)
  case Nil
  then show ?case by simp
next
  case (Cons a ds)
  obtain r1 s1 where m: "MkdirAll e a s = (r1, s1)" by (cases "MkdirAll e a s") auto
  with Cons.prems(1) have r1: "r1 = None" and rest: "mkdirEach e ds s1 = (None, s')"
    by (auto split: option.splits)
  show ?case
  proof (cases "d = a")
    case True
    from MkdirAll_made m r1 have "fs s1 a = Some Directory" by blast
    moreover from mkdirEach_fsOnly [OF rest] have "keepsDirs s1 s'" by (simp add: fsOnly_def)
    ultimately show ?thesis using True by (simp add: keepsDirs_def)
  next
    case False
    with Cons.prems(2) have "d \<in> set ds" by simp
    from Cons.IH [OF rest this] show ?thesis .
  qed
qed

lemma mkdirEach_there:
  "\<forall>d \<in> set ds. fs s d = Some Directory \<Longrightarrow> mkdirEach e ds s = (None, s)"
  by (induction ds) (simp_all add: MkdirAll_there)

lemma ensureDirs_again:
  assumes "ensureDirs e s = (None, s1)" "keepsDirs s1 s2"
  shows "ensureDirs e s2 = (None, s2)"
proof -
  have "\<forall>d \<in> set [baseDir e, releasesDir e, logsDir e]. fs s1 d = Some Directory"
    using assms(1) mkdirEach_made unfolding ensureDirs_def by blast
  then have "\<forall>d \<in> set [baseDir e, releasesDir e, logsDir e]. fs s2 d = Some Directory"
    using assms(2) by (simp add: keepsDirs_def)
  then show ?thesis unfolding ensureDirs_def by (rule mkdirEach_there)
qed

text \<open>A successful \<open>downloadAndUnpack\<close> ensured the directories, and what it did after
  that kept every directory.\<close>

lemma downloadAndUnpack_success:
  assumes "downloadAndUnpack e tag s = (None, s')"
  shows "tag \<noteq> [] \<and> (\<exists>s1. ensureDirs e s = (None, s1) \<and> keepsDirs s1 s')"
proof -
  have t: "tag \<noteq> []" using assms by (auto simp: downloadAndUnpack_def)
  obtain r1 s1 where en: "ensureDirs e s = (r1, s1)" by (cases "ensureDirs e s") auto
  with assms t have r1: "r1 = None" by (auto simp: downloadAndUnpack_def split: option.splits)
  let ?target = "pathJoin e (releasesDir e) tag"
  let ?s2 = "step (emit (GetArchive (downloadURL tag)) s1)"
  show ?thesis
  proof (cases "fs s1 ?target = Some Directory")
    case True
    with assms t en r1 have "s' = s1" by (simp add: downloadAndUnpack_def)
    with True t en r1 show ?thesis by (simp add: keepsDirs_def)
  next
    case False
    with assms t en r1 obtain files where
      u: "unzipEntries e ?target files ?s2 = (None, s')"
      by (auto simp: downloadAndUnpack_def unzipBuffer_def Let_def
          split: option.splits sum.splits if_splits)
    have k: "keepsDirs s1 s'"
      using unzipEntries_storeOnly [OF u] by (simp add: storeOnly_def keepsDirs_def)
    with t en r1 show ?thesis by simp
  qed
qed

text \<open>
  Claim C5, amended. For a non-empty tag, when the service's directories can be ensured
  and the release directory of the tag is a directory, \<open>downloadAndUnpack\<close> returns
  success at once: the trace, the config and the config file are as before, so no request
  and no extraction is made. Hence a call that follows a successful call is a no-op
  returning success whenever the first call left the release directory in place.
\<close>

theorem unpack_skips_existing:
  "(\<forall>e tag s s1. tag \<noteq> [] \<longrightarrow> ensureDirs e s = (None, s1) \<longrightarrow>
       fs s1 (pathJoin e (releasesDir e) tag) = Some Directory \<longrightarrow>
       downloadAndUnpack e tag s = (None, s1) \<and> trace s1 = trace s \<and>
       config s1 = config s \<and> disk s1 = disk s)
   \<and> (\<forall>e tag s s1. downloadAndUnpack e tag s = (None, s1) \<longrightarrow>
       fs s1 (pathJoin e (releasesDir e) tag) = Some Directory \<longrightarrow>
       downloadAndUnpack e tag s1 = (None, s1))"
proof -
  have a: "downloadAndUnpack e tag s = (None, s1) \<and> trace s1 = trace s \<and>
       config s1 = config s \<and> disk s1 = disk s"
    if "tag \<noteq> []" "ensureDirs e s = (None, s1)"
       "fs s1 (pathJoin e (releasesDir e) tag) = Some Directory" for e tag s s1
    using that ensureDirs_fsOnly [OF that(2)]
    by (simp add: downloadAndUnpack_def fsOnly_def)
  have b: "downloadAndUnpack e tag s1 = (None, s1)"
    if "downloadAndUnpack e tag s = (None, s1)"
       "fs s1 (pathJoin e (releasesDir e) tag) = Some Directory" for e tag s s1
  proof -
    from downloadAndUnpack_success [OF that(1)] obtain sA where
      t: "tag \<noteq> []" and en: "ensureDirs e s = (None, sA)" and k: "keepsDirs sA s1" by blast
    from ensureDirs_again [OF en k] have "ensureDirs e s1 = (None, s1)" .
    with t that(2) show ?thesis by (simp add: downloadAndUnpack_def)
  qed
  show ?thesis using a b by blast
qed

section \<open>The properties on the example installation\<close>

lemma config_sys0: "config sys0 = Some cfg0"
  by (simp add: sys0_def)

theorem update_gating_witness:
  "loadConfig env0 sys0 = (Inr cfg0, sys0)
   \<and> latestTag env0 sys0 = (Inr ''1.9.0'', snd (latestTag env0 sys0))
   \<and> Version cfg0 = ''1.9.0''
   \<and> CheckAndUpdate env0 sys0 = State env0 (snd (latestTag env0 sys0))
   \<and> (\<exists>st s'. CheckAndUpdate env0 sys0 = (Inr st, s') \<and> Version (stConfig st) = ''1.9.0'' \<and>
         archiveWork (trace s') = [] \<and> fs s' = fs sys0)
   \<and> (\<exists>st s'. State envNew sys0 = (Inr st, s') \<and> LatestTag st = ''2.0.0'' \<and> HasUpdate st)"
proof -
  have h1: "loadConfig env0 sys0 = (Inr cfg0, sys0)"
    using config_sys0 by (simp add: loadConfig_loaded)
  have "fst (latestTag env0 sys0) = Inr ''1.9.0''" by code_simp
  then have h2: "latestTag env0 sys0 = (Inr ''1.9.0'', snd (latestTag env0 sys0))"
    by (metis prod.collapse)
  have h3: "Version cfg0 = ''1.9.0''" by (simp add: cfg0_def)
  have h4: "''1.9.0'' \<noteq> ([]::string)" by simp
  have t0: "trace sys0 = []" by (simp add: sys0_def)
  have h5: "loadConfig envNew sys0 = (Inr cfg0, sys0)"
    using config_sys0 by (simp add: loadConfig_loaded)
  have l: "fst (latestTag envNew (refresh envNew sys0)) = Inr ''2.0.0''" by code_simp
  from update_gating [THEN conjunct2, rule_format, OF h1 h2 h3 h4]
  have "CheckAndUpdate env0 sys0 = State env0 (snd (latestTag env0 sys0))
     \<and> (\<exists>st s'. CheckAndUpdate env0 sys0 = (Inr st, s') \<and> Version (stConfig st) = Version cfg0 \<and>
         config s' = Some (stConfig st) \<and>
         archiveWork (trace s') = archiveWork (trace sys0) \<and> fs s' = fs sys0)" .
  then have b: "CheckAndUpdate env0 sys0 = State env0 (snd (latestTag env0 sys0))
     \<and> (\<exists>st s'. CheckAndUpdate env0 sys0 = (Inr st, s') \<and> Version (stConfig st) = ''1.9.0'' \<and>
         archiveWork (trace s') = [] \<and> fs s' = fs sys0)"
    unfolding t0 h3 archiveWork_Nil by blast
  from update_gating [THEN conjunct1, rule_format, OF h5] l h3
  have a: "\<exists>st s'. State envNew sys0 = (Inr st, s') \<and> LatestTag st = ''2.0.0'' \<and> HasUpdate st"
    by auto
  show ?thesis using h1 h2 h3 a b by blast
qed

theorem failed_download_keeps_version_witness:
  "loadConfig envNew sys0 = (Inr cfg0, sys0)
   \<and> latestTag envNew sys0 = (Inr ''2.0.0'', snd (latestTag envNew sys0))
   \<and> Version cfg0 \<noteq> ''2.0.0''
   \<and> fst (downloadAndUnpack envNew ''2.0.0'' (snd (latestTag envNew sys0))) =
       Some (DownloadFailed ''404 Not Found'')
   \<and> fst (CheckAndUpdate envNew sys0) = Inl (DownloadFailed ''404 Not Found'')
   \<and> config (snd (CheckAndUpdate envNew sys0)) = Some cfg0
   \<and> disk (snd (CheckAndUpdate envNew sys0)) = Some cfg0
   \<and> saves (trace (snd (CheckAndUpdate envNew sys0))) = []"
proof -
  let ?s2 = "snd (latestTag envNew sys0)"
  let ?s3 = "snd (downloadAndUnpack envNew ''2.0.0'' ?s2)"
  have h1: "loadConfig envNew sys0 = (Inr cfg0, sys0)"
    using config_sys0 by (simp add: loadConfig_loaded)
  have "fst (latestTag envNew sys0) = Inr ''2.0.0''" by code_simp
  then have h2: "latestTag envNew sys0 = (Inr ''2.0.0'', ?s2)" by (metis prod.collapse)
  have h3: "\<not> (Version cfg0 = ''2.0.0'' \<and> ''2.0.0'' \<noteq> ([]::string))" by (simp add: cfg0_def)
  have d: "fst (downloadAndUnpack envNew ''2.0.0'' ?s2) = Some (DownloadFailed ''404 Not Found'')"
    by code_simp
  then have h4: "downloadAndUnpack envNew ''2.0.0'' ?s2 = (Some (DownloadFailed ''404 Not Found''), ?s3)"
    by (metis prod.collapse)
  have d0: "disk sys0 = Some cfg0" "trace sys0 = []" by (simp_all add: sys0_def)
  from failed_download_keeps_version [OF h1 h2 h3 h4] d0 h1 h2 h3 d
  show ?thesis by simp
qed

theorem state_read_replaces_results_witness:
  "loadConfig env0 sys0 = (Inr cfg0, sys0) \<and> Version cfg0 = ''1.9.0''
   \<and> map fst (TestResults cfg0) = [''old'']
   \<and> fst (parseLatestResult env0 (pathJoin env0 (releasesDir env0) (Version cfg0)) sys0) =
        parseAnalytics sampleReport
   \<and> (\<exists>st s' latest. State env0 sys0 = (Inr st, s') \<and> parseAnalytics sampleReport = Inr latest \<and>
         map fst (Results latest) = [''general1'', ''general2''] \<and>
         TestResults (stConfig st) = Results latest \<and> BestStrategy (stConfig st) = ''general1'' \<and>
         (\<exists>d. disk s' = Some d \<and> TestResults d = Results latest \<and>
              BestStrategy d = ''general1''))"
proof -
  let ?cur = "pathJoin env0 (releasesDir env0) (Version cfg0)"
  have h1: "loadConfig env0 sys0 = (Inr cfg0, sys0)"
    using config_sys0 by (simp add: loadConfig_loaded)
  have h2: "Version cfg0 = ''1.9.0''" by (simp add: cfg0_def)
  have h2': "Version cfg0 \<noteq> []" by (simp add: cfg0_def)
  have o: "map fst (TestResults cfg0) = [''old'']" by (simp add: cfg0_def)
  have p: "fst (parseLatestResult env0 ?cur sys0) = parseAnalytics sampleReport" by code_simp
  obtain latest where l: "parseAnalytics sampleReport = Inr latest"
    "map fst (Results latest) = [''general1'', ''general2'']" "Best latest = ''general1''"
  proof -
    have "map fst (Results (projr (parseAnalytics sampleReport))) = [''general1'', ''general2'']
      \<and> Best (projr (parseAnalytics sampleReport)) = ''general1''
      \<and> \<not> isl (parseAnalytics sampleReport)"
      by code_simp
    then show ?thesis using that [of "projr (parseAnalytics sampleReport)"] by auto
  qed
  have h3: "parseLatestResult env0 ?cur sys0 = (Inr latest, snd (parseLatestResult env0 ?cur sys0))"
    using p l(1) by (metis prod.collapse)
  have w: "\<forall>t. writeRes env0 t = WriteOk" by (simp add: env0_def)
  have k: "codecResults env0 = (\<lambda>rs. rs)" "codecString env0 = (\<lambda>x. x)"
    by (simp_all add: env0_def)
  from state_read_replaces_results [OF h1 h2' h3] w l h1 h2 o p
  show ?thesis unfolding k by auto
qed



theorem strategies_listed_sorted_witness:
  "currentReleasePath env0 sys0 = (Some ''C:/ZapretUI/releases/1.9.0'', sys0)
   \<and> readDirRes env0 (tick sys0) ''C:/ZapretUI/releases/1.9.0'' = Inr sampleEntries
   \<and> (\<exists>res. listStrategies env0 sys0 = (Inr res, step sys0) \<and>
         map sName res = [''general1.bat'', ''general2.BAT''])
   \<and> currentReleasePath env0 sysIdle = (None, sysIdle)
   \<and> listStrategies env0 sysIdle = (Inr [], sysIdle)"
proof -
  have h1: "currentReleasePath env0 sys0 = (Some ''C:/ZapretUI/releases/1.9.0'', sys0)"
    using config_sys0 by (simp add: currentReleasePath_loaded cfg0_def env0_def)
  have h2: "readDirRes env0 (tick sys0) ''C:/ZapretUI/releases/1.9.0'' = Inr sampleEntries"
    by (simp add: env0_def)
  have h3: "currentReleasePath env0 sysIdle = (None, sysIdle)"
    by (simp add: currentReleasePath_def loadConfig_def sysIdle_def)
  note main = strategies_listed_sorted
  from main [THEN conjunct1, rule_format, OF h1 h2] obtain res where
    r: "listStrategies env0 sys0 = (Inr res, step sys0)" by blast
  have "res = sort_key sName (selectStrategies env0 ''C:/ZapretUI/releases/1.9.0'' sampleEntries)"
    using r h1 h2 by (simp add: listStrategies_def)
  with main [THEN conjunct2, THEN conjunct2, rule_format, of env0 "''C:/ZapretUI/releases/1.9.0''"]
  have n: "map sName res = [''general1.bat'', ''general2.BAT'']" by simp
  from main [THEN conjunct2, THEN conjunct1, rule_format, OF h3]
  have e: "listStrategies env0 sysIdle = (Inr [], sysIdle)" .
  show ?thesis using h1 h2 h3 r n e by simp
qed

theorem stop_clears_running_witness:
  "loadConfig env0 sys0 = (Inr cfg0, sys0)
   \<and> map_option PID (Running cfg0) = Some 4242
   \<and> (\<exists>s'. StopRunning env0 sys0 = (None, s') \<and> config s' = Some (cfg0\<lparr>Running := None\<rparr>) \<and>
         disk s' = Some (cfg0\<lparr>Running := None\<rparr>))
   \<and> (\<exists>st s''. StopStrategy env0 sys0 = (Inr st, s'') \<and> stRunning st = None)
   \<and> fst (StopRunning env0 (snd (StopRunning env0 sys0))) = None"
proof -
  have h1: "loadConfig env0 sys0 = (Inr cfg0, sys0)"
    using config_sys0 by (simp add: loadConfig_loaded)
  have h2: "map_option PID (Running cfg0) = Some 4242" by (simp add: cfg0_def)
  have w: "\<forall>t. writeRes env0 t = WriteOk" by (simp add: env0_def)
  have d: "\<forall>d. disk sys0 = Some d \<longrightarrow> Running d = Running cfg0" by (simp add: sys0_def)
  note main = stop_clears_running [THEN conjunct2, rule_format, OF h1]
  from main obtain s' where s': "StopRunning env0 sys0 = (None, s')"
    "config s' = Some (cfg0\<lparr>Running := None\<rparr>)"
    "Running cfg0 \<noteq> None \<longrightarrow> SaveConfig (cfg0\<lparr>Running := None\<rparr>) \<in> set (trace s')"
    "(\<forall>t. writeRes env0 t = WriteOk) \<longrightarrow>
           (\<forall>d. disk sys0 = Some d \<longrightarrow> Running d = Running cfg0) \<longrightarrow>
           (\<forall>d. disk s' = Some d \<longrightarrow> Running d = None)"
    by auto
  have dk: "disk (snd (StopRunning env0 sys0)) = Some (cfg0\<lparr>Running := None\<rparr>)" by code_simp
  have again: "fst (StopRunning env0 (snd (StopRunning env0 sys0))) = None"
    using stop_clears_running [THEN conjunct1, rule_format, of env0 "snd (StopRunning env0 sys0)"
       "fst (StopRunning env0 (snd (StopRunning env0 sys0)))"
       "snd (StopRunning env0 (snd (StopRunning env0 sys0)))"] s'(1,2)
    by (simp add: loadConfig_loaded)
  from main have st: "\<exists>st s''. StopStrategy env0 sys0 = (Inr st, s'') \<and> stRunning st = None"
    by auto
  show ?thesis using h1 h2 s'(1,2) dk st again by simp
qed



text \<open>
  The release directory of 1.9.0 exists, but \<open>logs\<close> is a regular file: the call, and
  the call after it, return the error of \<open>ensureDirs\<close>.
\<close>

theorem unpack_fails_before_lookup:
  "''1.9.0'' \<noteq> ([]::string)
   \<and> fs sysBadLogs (pathJoin env0 (releasesDir env0) ''1.9.0'') = Some Directory
   \<and> fst (downloadAndUnpack env0 ''1.9.0'' sysBadLogs) = Some (OsError ''not a directory'')
   \<and> fst (downloadAndUnpack env0 ''1.9.0'' (snd (downloadAndUnpack env0 ''1.9.0'' sysBadLogs))) =
        Some (OsError ''not a directory'')"
  by code_simp


theorem unpack_skips_existing_witness:
  "''1.9.0'' \<noteq> ([]::string)
   \<and> ensureDirs env0 sys0 = (None, sys0)
   \<and> fs sys0 (pathJoin env0 (releasesDir env0) ''1.9.0'') = Some Directory
   \<and> downloadAndUnpack env0 ''1.9.0'' sys0 = (None, sys0)
   \<and> fst (downloadAndUnpack envGood ''2.0.0'' sys0) = None
   \<and> fs (snd (downloadAndUnpack envGood ''2.0.0'' sys0))
         (pathJoin envGood (releasesDir envGood) ''2.0.0'') = Some Directory
   \<and> length (archiveWork (trace (snd (downloadAndUnpack envGood ''2.0.0'' sys0)))) = 3
   \<and> downloadAndUnpack envGood ''2.0.0'' (snd (downloadAndUnpack envGood ''2.0.0'' sys0)) =
       (None, snd (downloadAndUnpack envGood ''2.0.0'' sys0))"
proof -
  let ?s1 = "snd (downloadAndUnpack envGood ''2.0.0'' sys0)"
  have h0: "''1.9.0'' \<noteq> ([]::string)" by simp
  have d: "\<forall>d \<in> set [baseDir env0, releasesDir env0, logsDir env0]. fs sys0 d = Some Directory"
    by code_simp
  have h1: "ensureDirs env0 sys0 = (None, sys0)"
    unfolding ensureDirs_def using d by (rule mkdirEach_there)
  have h2: "fs sys0 (pathJoin env0 (releasesDir env0) ''1.9.0'') = Some Directory" by code_simp
  note main = unpack_skips_existing
  from main [THEN conjunct1, rule_format, OF h0 h1 h2]
  have a: "downloadAndUnpack env0 ''1.9.0'' sys0 = (None, sys0)" by simp
  have f: "fst (downloadAndUnpack envGood ''2.0.0'' sys0) = None" by code_simp
  then have h3: "downloadAndUnpack envGood ''2.0.0'' sys0 = (None, ?s1)" by (metis prod.collapse)
  have h4: "fs ?s1 (pathJoin envGood (releasesDir envGood) ''2.0.0'') = Some Directory"
    by code_simp
  have w: "length (archiveWork (trace ?s1)) = 3" by code_simp
  from main [THEN conjunct2, rule_format, OF h3 h4]
  have b: "downloadAndUnpack envGood ''2.0.0'' ?s1 = (None, ?s1)" .
  show ?thesis using h0 h1 h2 a f h4 w b by simp
qed

text \<open>
  An archive with no entry extracts to nothing: the call succeeds, the release directory
  is not made, and a second call fetches the archive again.
\<close>

lemma empty_archive_fetched_again:
  "fst (downloadAndUnpack envEmpty ''2.0.0'' sys0) = None
   \<and> fs (snd (downloadAndUnpack envEmpty ''2.0.0'' sys0))
         (pathJoin envEmpty (releasesDir envEmpty) ''2.0.0'') = None
   \<and> fst (downloadAndUnpack envEmpty ''2.0.0'' (snd (downloadAndUnpack envEmpty ''2.0.0'' sys0))) = None
   \<and> length (archiveWork (trace (snd (downloadAndUnpack envEmpty ''2.0.0''
         (snd (downloadAndUnpack envEmpty ''2.0.0'' sys0)))))) = 2"
  by code_simp

end
